theory Spec2Isabelle
  imports Complex_Main "HOL-Library.Multiset"
begin

section \<open>Values, errors and observable events\<close>

text \<open>
  The program is a driver around external tools (ffmpeg, ffprobe, whisper-cli, tesseract),
  the file system and a cloud model. Every call that leaves the process is recorded as an
  event, in program order; what the outside world answers is read from an environment
  record of response functions (section Environment).

  A Go \<open>error\<close> is either produced by the outside world (\<open>EnvErr\<close>) or built by
  \<open>fmt.Errorf\<close> from a format string and its arguments (\<open>Errorf\<close>). Console and log
  lines keep the format string of the source (without the line feeds at its ends) and the
  argument values, unrendered.
\<close>

datatype val = VInt int | VStr string | VErr error | VDur
  and error = EnvErr string | Errorf string "val list"

text \<open>The parts of a prompt or of a response (\<open>genai.Part\<close>).\<close>

datatype part = Text string | FileData string | Blob string

text \<open>\<open>genai.Candidate\<close>: its \<open>Content\<close> pointer may be nil.\<close>

type_synonym candidate = "part list option"

type_synonym response = "candidate list"

datatype event =
    Printf string "val list"
  | LogPrint string "val list"
  | Sleep nat
  | GenerateContent "part list"
  | FileWrite string string
  | UploadFile string
  | DeleteFile string
  | LookPath string
  | MkdirTemp string
  | CreateTemp string
  | RemoveAll string
  | Remove string
  | Exec string "string list"
  | WalkDir string
  | OpenFile string
  | CreateFile string
  | ReadFile string
  | CloseFile string
  | ChanSend error
  | OsExit int

definition nl :: string where
  "nl = [CHR 0x0A]"

section \<open>Rendering an integer for the verb \<open>%d\<close>\<close>

definition digitChar :: "nat \<Rightarrow> char" where
  "digitChar d = char_of (48 + d)"

function decimal :: "nat \<Rightarrow> string" where
  "decimal n = (if n < 10 then [digitChar n] else decimal (n div 10) @ [digitChar (n mod 10)])"
  by pat_completeness auto
termination
  by (relation "measure id") auto

definition itoa :: "int \<Rightarrow> string" where
  "itoa i = (if i < 0 then CHR ''-'' # decimal (nat (- i)) else decimal (nat i))"

section \<open>Environment\<close>

text \<open>
  What the outside world answers. A response function is keyed by the arguments of the
  call and, where the program repeats a call with the same arguments, by the number of
  the attempt or of the worker. Library functions whose code is not part of the program
  (\<open>strconv.ParseFloat\<close> after \<open>strings.TrimSpace\<close>, with a finite value as a rational;
  \<open>filepath.Dir\<close>; \<open>filepath.Base\<close>) are fields too.
  \<open>ocrSchedule\<close> and \<open>chunkSchedule\<close> are the scheduler's choices among goroutines that
  can run; \<open>goosWindows\<close> says whether the program runs on Windows.
\<close>

datatype walkItem = WalkErr error | WalkEntry string string bool

record cmdResult =
  stdout :: string
  stderr :: string
  combined :: string
  exitErr :: "error option"

record env =
  generateContent :: "part list \<Rightarrow> nat \<Rightarrow> error + response"
  fileWrite :: "string \<Rightarrow> string \<Rightarrow> error option"
  lookPath :: "string \<Rightarrow> error option"
  mkdirTemp :: "string \<Rightarrow> error + string"
  runCmd :: "string \<Rightarrow> string list \<Rightarrow> cmdResult"
  parseFloat :: "string \<Rightarrow> error + rat"
  walkDir :: "string \<Rightarrow> walkItem list"
  osOpen :: "nat \<Rightarrow> string \<Rightarrow> error option"
  imageDecode :: "nat \<Rightarrow> string \<Rightarrow> error option"
  jpegEncode :: "nat \<Rightarrow> string \<Rightarrow> error + string"
  createTemp :: "nat \<Rightarrow> error + string"
  fileClose :: "string \<Rightarrow> error option"
  uploadFile :: "string \<Rightarrow> error + string \<times> string"
  deleteFile :: "string \<Rightarrow> error option"
  numCPU :: nat
  filepathDir :: "string \<Rightarrow> string"
  filepathBase :: "string \<Rightarrow> string"
  osCreate :: "string \<Rightarrow> error option"
  readFile :: "string \<Rightarrow> error + string"
  ocrSchedule :: "string list \<Rightarrow> nat \<Rightarrow> nat"
  chunkSchedule :: "int \<Rightarrow> int \<Rightarrow> nat \<Rightarrow> bool"
  goosWindows :: bool

section \<open>sentLlmPrompt\<close>

definition maxRetries :: nat where
  "maxRetries = 3"

text \<open>\<open>retryDelay\<close>, in seconds.\<close>

definition retryDelay :: nat where
  "retryDelay = 15"

text \<open>
  The loop over the parts of one candidate: a \<open>genai.Text\<close> part is appended to the
  response and, when a file was passed, written to it with \<open>fmt.Fprintln\<close> (a write
  error is logged and the loop goes on); any other part is skipped.
\<close>

fun partsLoop :: "env \<Rightarrow> string option \<Rightarrow> part list \<Rightarrow> string \<times> event list" where
  "partsLoop E file [] = ([], [])"
| "partsLoop E file (Text t # ps) =
     (let evs = (case file of
                   None \<Rightarrow> []
                 | Some f \<Rightarrow>
                     FileWrite f (t @ nl) #
                     (case fileWrite E f (t @ nl) of
                        Some err \<Rightarrow> [LogPrint ''Error writing to file:'' [VErr err]]
                      | None \<Rightarrow> []));
          (r, evs') = partsLoop E file ps
      in (t @ r, evs @ evs'))"
| "partsLoop E file (p # ps) = partsLoop E file ps"

fun candidatesLoop :: "env \<Rightarrow> string option \<Rightarrow> candidate list \<Rightarrow> string \<times> event list" where
  "candidatesLoop E file [] = ([], [])"
| "candidatesLoop E file (c # cs) =
     (let (r, evs) = (case c of None \<Rightarrow> ([], []) | Some ps \<Rightarrow> partsLoop E file ps);
          (r', evs') = candidatesLoop E file cs
      in (r @ r', evs @ evs'))"

text \<open>The retry loop, from attempt number \<open>attempt\<close> on.\<close>

function sentLlmPromptFrom ::
  "env \<Rightarrow> part list \<Rightarrow> string option \<Rightarrow> int \<Rightarrow> nat \<Rightarrow> string \<times> event list" where
  "sentLlmPromptFrom E prompt file videoIndex attempt =
     (if attempt \<le> maxRetries then
        (let pre = [Printf ''Sending combined prompt for video %d to LLM, attempt %d...''
                      [VInt videoIndex, VInt (int attempt + 1)],
                    GenerateContent prompt]
         in case generateContent E prompt attempt of
              Inr resp \<Rightarrow>
                (let (llmResponse, evs) = candidatesLoop E file resp
                 in (llmResponse,
                     pre @ [Printf ''LLM response received for video %d in %v.''
                              [VInt videoIndex, VDur]]
                     @ evs
                     @ [Printf ''Combined prompt processed and written to file for video %d.''
                          [VInt videoIndex]]))
            | Inl err \<Rightarrow>
                (let pre' = pre @ [LogPrint ''Error generating content for video %d (attempt %d): %v''
                                     [VInt videoIndex, VInt (int attempt + 1), VErr err]]
                 in if attempt < maxRetries then
                      (let (r, evs) = sentLlmPromptFrom E prompt file videoIndex (attempt + 1)
                       in (r, pre' @ [Printf ''Retrying in %v...'' [VDur], Sleep retryDelay] @ evs))
                    else
                      ([], pre' @ [Printf ''Max retries reached for video %d. Aborting LLM call.''
                                     [VInt videoIndex]])))
      else ([], []))"
  by pat_completeness auto
termination
  by (relation "measure (\<lambda>(E, prompt, file, videoIndex, attempt). maxRetries + 1 - attempt)") auto

declare sentLlmPromptFrom.simps [simp del]

definition sentLlmPrompt ::
  "env \<Rightarrow> part list \<Rightarrow> string option \<Rightarrow> int \<Rightarrow> string \<times> event list" where
  "sentLlmPrompt E prompt file videoIndex = sentLlmPromptFrom E prompt file videoIndex 0"

text \<open>
  The words of the specification, to compare the loops with: the concatenation of all
  textual response parts.
\<close>

definition textOfPart :: "part \<Rightarrow> string" where
  "textOfPart p = (case p of Text t \<Rightarrow> t | _ \<Rightarrow> [])"

definition responseText :: "response \<Rightarrow> string" where
  "responseText resp =
     concat (map textOfPart (concat (map (\<lambda>c. case c of None \<Rightarrow> [] | Some ps \<Rightarrow> ps) resp)))"

text \<open>Counting what the retry loop did: calls of the model, and the sleeps in order.\<close>

fun attempts :: "event list \<Rightarrow> nat" where
  "attempts [] = 0"
| "attempts (GenerateContent p # evs) = Suc (attempts evs)"
| "attempts (e # evs) = attempts evs"

fun sleeps :: "event list \<Rightarrow> nat list" where
  "sleeps [] = []"
| "sleeps (Sleep d # evs) = d # sleeps evs"
| "sleeps (e # evs) = sleeps evs"

section \<open>isVideoFile\<close>

text \<open>
  \<open>filepath.Ext\<close> of the Go library: scan from the last byte towards the front, stop at a
  path separator, return the suffix that starts at the first dot met.  The function below
  scans the reversed path and carries the bytes already passed.
\<close>

definition isPathSeparator :: "bool \<Rightarrow> char \<Rightarrow> bool" where
  "isPathSeparator windows c = (c = CHR ''/'' \<or> (windows \<and> c = CHR 0x5C))"

fun extScan :: "bool \<Rightarrow> string \<Rightarrow> string \<Rightarrow> string" where
  "extScan windows [] seen = []"
| "extScan windows (c # front) seen =
     (if isPathSeparator windows c then []
      else if c = CHR ''.'' then c # seen
      else extScan windows front (c # seen))"

definition Ext :: "bool \<Rightarrow> string \<Rightarrow> string" where
  "Ext windows path = extScan windows (rev path) []"

text \<open>
  \<open>strings.ToLower\<close> of the Go library: a string of ASCII bytes only has \<open>A\<close>..\<open>Z\<close>
  moved to \<open>a\<close>..\<open>z\<close> byte by byte; any other string goes through the Unicode tables
  (\<open>strings.Map(unicode.ToLower, s)\<close>), which are library data and enter as the
  parameter \<open>unicodeLower\<close>.
\<close>

definition isASCII :: "char \<Rightarrow> bool" where
  "isASCII c = ((of_char c :: nat) < 128)"

definition asciiLower :: "char \<Rightarrow> char" where
  "asciiLower c =
     (if (65::nat) \<le> of_char c \<and> (of_char c :: nat) \<le> 90 then char_of (of_char c + (32::nat)) else c)"

definition ToLower :: "(string \<Rightarrow> string) \<Rightarrow> string \<Rightarrow> string" where
  "ToLower unicodeLower s = (if list_all isASCII s then map asciiLower s else unicodeLower s)"

definition videoExtensions :: "string list" where
  "videoExtensions =
     [''.mp4'', ''.mov'', ''.avi'', ''.wmv'', ''.mkv'', ''.flv'', ''.webm'', ''.mpeg'', ''.mpg'']"

fun extLoop :: "string \<Rightarrow> string list \<Rightarrow> bool" where
  "extLoop ext [] = False"
| "extLoop ext (vext # rest) = (if ext = vext then True else extLoop ext rest)"

definition isVideoFile :: "bool \<Rightarrow> (string \<Rightarrow> string) \<Rightarrow> string \<Rightarrow> bool" where
  "isVideoFile windows unicodeLower path =
     (let ext = ToLower unicodeLower (Ext windows path) in extLoop ext videoExtensions)"

text \<open>
  The callback that main passes to \<open>filepath.WalkDir\<close> to find the videos of a folder:
  an item with an error makes the callback return it (main then ends with
  \<open>log.Fatalf\<close>); an entry that is not a directory and that isVideoFile accepts is
  appended to \<open>videoPaths\<close>.
\<close>

fun discoverLoop ::
  "bool \<Rightarrow> (string \<Rightarrow> string) \<Rightarrow> walkItem list \<Rightarrow> string list \<Rightarrow> error + string list" where
  "discoverLoop windows unicodeLower [] videoPaths = Inr videoPaths"
| "discoverLoop windows unicodeLower (WalkErr err # rest) videoPaths = Inl err"
| "discoverLoop windows unicodeLower (WalkEntry path name isDir # rest) videoPaths =
     (if \<not> isDir \<and> isVideoFile windows unicodeLower path
      then discoverLoop windows unicodeLower rest (videoPaths @ [path])
      else discoverLoop windows unicodeLower rest videoPaths)"

section \<open>A quiet environment\<close>

text \<open>
  An environment in which every call succeeds and returns nothing of interest; concrete
  runs below override the fields they need.
\<close>

definition quietEnv :: env where
  "quietEnv =
     \<lparr> generateContent = (\<lambda>prompt attempt. Inr []),
       fileWrite = (\<lambda>name data. None),
       lookPath = (\<lambda>name. None),
       mkdirTemp = (\<lambda>pattern. Inr (''/tmp/'' @ pattern)),
       runCmd = (\<lambda>name args. \<lparr>stdout = [], stderr = [], combined = [], exitErr = None\<rparr>),
       parseFloat = (\<lambda>s. Inr 0),
       walkDir = (\<lambda>dir. []),
       osOpen = (\<lambda>i path. None),
       imageDecode = (\<lambda>i path. None),
       jpegEncode = (\<lambda>i path. Inr []),
       createTemp = (\<lambda>i. Inr (''/tmp/ocr_'' @ itoa (int i) @ ''.jpg'')),
       fileClose = (\<lambda>name. None),
       uploadFile = (\<lambda>path. Inr (''files/x'', ''https://files/x'')),
       deleteFile = (\<lambda>name. None),
       numCPU = 2,
       filepathDir = (\<lambda>path. rev (tl (dropWhile (\<lambda>c. c \<noteq> CHR ''/'') (rev path)))),
       filepathBase = (\<lambda>path. path),
       osCreate = (\<lambda>name. None),
       readFile = (\<lambda>name. Inr []),
       ocrSchedule = (\<lambda>frames step. 0),
       chunkSchedule = (\<lambda>videoIndex chunkNum step. True),
       goosWindows = False \<rparr>"


text \<open>A model that fails twice and then answers, and one that never answers.\<close>

definition flakyResponse :: response where
  "flakyResponse = [Some [Text ''ab'', Blob ''x'', Text ''cd''], None, Some [Text ''e'']]"

definition flakyEnv :: env where
  "flakyEnv = quietEnv
     \<lparr> generateContent := (\<lambda>prompt attempt.
          if attempt < 2 then Inl (EnvErr ''unavailable'') else Inr flakyResponse) \<rparr>"

definition downEnv :: env where
  "downEnv = quietEnv \<lparr> generateContent := (\<lambda>prompt attempt. Inl (EnvErr ''unavailable'')) \<rparr>"


section \<open>chunkVideo\<close>

record ChunkData =
  VideoPath :: string
  AudioPath :: string
  ChunkNum :: int
  Err :: "error option"
  VideoIndex :: int
  BaseName :: string

text \<open>
  A call returns a value and a nil error, returns an error, panics, or blocks for ever
  (\<open>Hang\<close>: a goroutine waits on a channel that nothing will serve).
\<close>

datatype 'a result = Ok 'a | Failed error | Panic string | Hang

text \<open>
  The duration is a \<open>float64\<close>; the model takes it as the rational number it denotes and
  divides exactly. \<open>int(x)\<close> truncates towards zero, and \<open>%\<close> takes the sign of the
  dividend and panics on a zero divisor. Values are taken inside the range of \<open>int\<close>.
\<close>

definition goTrunc :: "rat \<Rightarrow> int" where
  "goTrunc x = (if x < 0 then - \<lfloor>- x\<rfloor> else \<lfloor>x\<rfloor>)"

definition goRem :: "int \<Rightarrow> int \<Rightarrow> int" where
  "goRem a b = sgn a * (\<bar>a\<bar> mod \<bar>b\<bar>)"

definition numChunks :: "rat \<Rightarrow> int \<Rightarrow> int" where
  "numChunks duration chunkDuration =
     (let n = goTrunc (duration / of_int chunkDuration)
      in if goRem (goTrunc duration) chunkDuration \<noteq> 0 then n + 1 else n)"

definition chunkVideoPath :: "string \<Rightarrow> int \<Rightarrow> int \<Rightarrow> string" where
  "chunkVideoPath tempDir i videoIndex =
     tempDir @ ''/chunk_'' @ itoa i @ ''_video_'' @ itoa videoIndex @ ''.mp4''"

definition chunkAudioPath :: "string \<Rightarrow> int \<Rightarrow> int \<Rightarrow> string" where
  "chunkAudioPath tempDir i videoIndex =
     tempDir @ ''/chunk_'' @ itoa i @ ''_video_'' @ itoa videoIndex @ ''.wav''"

definition chunkArgs :: "string \<Rightarrow> int \<Rightarrow> int \<Rightarrow> string \<Rightarrow> string \<Rightarrow> string list" where
  "chunkArgs videoPath startTime chunkDuration vpath apath =
     [''-ss'', itoa startTime, ''-i'', videoPath, ''-t'', itoa chunkDuration,
      ''-c'', ''copy'', ''-an'', vpath,
      ''-ss'', itoa startTime, ''-i'', videoPath, ''-t'', itoa chunkDuration,
      ''-vn'', ''-acodec'', ''pcm_s16le'', apath]"

text \<open>
  The loop \<open>for i := 0; i < numChunks; i++\<close>, from index \<open>i\<close> with \<open>todo\<close> rounds left.
  A failure of ffmpeg returns at once, with a nil list.
\<close>

fun chunkLoop ::
  "env \<Rightarrow> string \<Rightarrow> int \<Rightarrow> int \<Rightarrow> string \<Rightarrow> string \<Rightarrow> int \<Rightarrow> nat \<Rightarrow> ChunkData list
     \<Rightarrow> ChunkData list result \<times> event list" where
  "chunkLoop E videoPath chunkDuration videoIndex baseName tempDir i 0 chunks = (Ok chunks, [])"
| "chunkLoop E videoPath chunkDuration videoIndex baseName tempDir i (Suc todo) chunks =
     (let startTime = i * chunkDuration;
          vpath = chunkVideoPath tempDir i videoIndex;
          apath = chunkAudioPath tempDir i videoIndex;
          args = chunkArgs videoPath startTime chunkDuration vpath apath;
          out = runCmd E ''ffmpeg'' args
      in case exitErr out of
           Some err \<Rightarrow>
             (Failed (Errorf ''error creating video chunk %d for video %d: %w, output: %s''
                        [VInt i, VInt videoIndex, VErr err, VStr (combined out)]),
              [Exec ''ffmpeg'' args])
         | None \<Rightarrow>
             (let (r, evs) = chunkLoop E videoPath chunkDuration videoIndex baseName tempDir
                               (i + 1) todo
                               (chunks @ [\<lparr>VideoPath = vpath, AudioPath = apath, ChunkNum = i,
                                           Err = None, VideoIndex = videoIndex,
                                           BaseName = baseName\<rparr>])
              in (r, Exec ''ffmpeg'' args # evs)))"

definition ffprobeArgs :: "string \<Rightarrow> string list" where
  "ffprobeArgs videoPath =
     [''-v'', ''error'', ''-show_entries'', ''format=duration'',
      ''-of'', ''default=noprint_wrappers=1:nokey=1'', videoPath]"

definition chunkVideo ::
  "env \<Rightarrow> string \<Rightarrow> int \<Rightarrow> int \<Rightarrow> string \<Rightarrow> ChunkData list result \<times> event list" where
  "chunkVideo E videoPath chunkDuration videoIndex baseName =
     (case lookPath E ''ffmpeg'' of
        Some err \<Rightarrow> (Failed (Errorf ''ffmpeg not found in PATH: %w'' [VErr err]), [LookPath ''ffmpeg''])
      | None \<Rightarrow>
     (case mkdirTemp E ''video_chunks'' of
        Inl err \<Rightarrow>
          (Failed (Errorf ''error creating temporary directory: %w'' [VErr err]),
           [LookPath ''ffmpeg'', MkdirTemp ''video_chunks''])
      | Inr tempDir \<Rightarrow>
     (let pre = [LookPath ''ffmpeg'', MkdirTemp ''video_chunks'',
                 Exec ''ffprobe'' (ffprobeArgs videoPath)];
          out = runCmd E ''ffprobe'' (ffprobeArgs videoPath)
      in case exitErr out of
           Some err \<Rightarrow>
             (Failed (Errorf ''error getting video duration: %w, output: %s''
                        [VErr err, VStr (combined out)]),
              pre @ [RemoveAll tempDir])
         | None \<Rightarrow>
     (case parseFloat E (combined out) of
        Inl err \<Rightarrow>
          (Failed (Errorf ''error parsing video duration: %w'' [VErr err]),
           pre @ [RemoveAll tempDir])
      | Inr duration \<Rightarrow>
          if chunkDuration = 0 then (Panic ''integer divide by zero'', pre)
          else
            (let (r, evs) = chunkLoop E videoPath chunkDuration videoIndex baseName tempDir 0
                              (nat (numChunks duration chunkDuration)) []
             in (r, pre @ evs))))))"


text \<open>Segment \<open>i\<close> of a video as the loop builds it, and the arguments of its
  ffmpeg call.\<close>

definition segment :: "string \<Rightarrow> int \<Rightarrow> string \<Rightarrow> int \<Rightarrow> ChunkData" where
  "segment tempDir videoIndex baseName i =
     \<lparr>VideoPath = chunkVideoPath tempDir i videoIndex,
      AudioPath = chunkAudioPath tempDir i videoIndex, ChunkNum = i, Err = None,
      VideoIndex = videoIndex, BaseName = baseName\<rparr>"

definition segmentArgs :: "string \<Rightarrow> int \<Rightarrow> string \<Rightarrow> int \<Rightarrow> int \<Rightarrow> string list" where
  "segmentArgs videoPath chunkDuration tempDir videoIndex i =
     chunkArgs videoPath (i * chunkDuration) chunkDuration
       (chunkVideoPath tempDir i videoIndex) (chunkAudioPath tempDir i videoIndex)"

text \<open>
  A video of 2.5 seconds, and one of 60 seconds on which ffmpeg fails.
\<close>

definition halfEnv :: env where
  "halfEnv = quietEnv \<lparr> parseFloat := (\<lambda>s. Inr (5 / 2)) \<rparr>"

definition brokenEnv :: env where
  "brokenEnv = quietEnv
     \<lparr> parseFloat := (\<lambda>s. Inr 60),
       runCmd := (\<lambda>name args.
         if name = ''ffmpeg''
         then \<lparr>stdout = [], stderr = [], combined = ''Invalid data'',
                exitErr = Some (EnvErr ''exit status 1'')\<rparr>
         else \<lparr>stdout = [], stderr = [], combined = ''60.000000'', exitErr = None\<rparr>) \<rparr>"


section \<open>extractFrames\<close>

definition hasSuffix :: "string \<Rightarrow> string \<Rightarrow> bool" where
  "hasSuffix s suffix =
     (length suffix \<le> length s \<and> drop (length s - length suffix) s = suffix)"

text \<open>
  The callback of \<open>filepath.WalkDir\<close>, over the items the walk presents: an item with an
  error makes the callback return it, which ends the walk; the error that WalkDir then
  returns is dropped by extractFrames.
\<close>

fun walkLoop :: "walkItem list \<Rightarrow> string list \<Rightarrow> string list" where
  "walkLoop [] framePaths = framePaths"
| "walkLoop (WalkErr err # rest) framePaths = framePaths"
| "walkLoop (WalkEntry path name isDir # rest) framePaths =
     (if \<not> isDir \<and> hasSuffix name ''.jpg'' then walkLoop rest (framePaths @ [path])
      else walkLoop rest framePaths)"

definition framesPattern :: "int \<Rightarrow> int \<Rightarrow> string" where
  "framesPattern videoIndex chunkNum =
     ''frames_video'' @ itoa videoIndex @ ''_chunk'' @ itoa chunkNum"

definition framesArgs :: "string \<Rightarrow> string \<Rightarrow> string list" where
  "framesArgs videoPath tempDir =
     [''-i'', videoPath, ''-r'', ''1'', ''-q:v'', ''2'', tempDir @ ''/frame_%04d.jpg'']"

definition extractFrames ::
  "env \<Rightarrow> string \<Rightarrow> int \<Rightarrow> int \<Rightarrow> string list result \<times> event list" where
  "extractFrames E videoPath videoIndex chunkNum =
     (case mkdirTemp E (framesPattern videoIndex chunkNum) of
        Inl err \<Rightarrow>
          (Failed (Errorf ''error creating temporary directory for frames: %w'' [VErr err]),
           [MkdirTemp (framesPattern videoIndex chunkNum)])
      | Inr tempDir \<Rightarrow>
          (let pre = [MkdirTemp (framesPattern videoIndex chunkNum),
                      Exec ''ffmpeg'' (framesArgs videoPath tempDir)];
               out = runCmd E ''ffmpeg'' (framesArgs videoPath tempDir)
           in case exitErr out of
                Some err \<Rightarrow>
                  (Failed (Errorf ''error extracting frames: %w, output: %s''
                             [VErr err, VStr (combined out)]),
                   pre @ [RemoveAll tempDir])
              | None \<Rightarrow> (Ok (walkLoop (walkDir E tempDir) []), pre @ [WalkDir tempDir])))"

section \<open>transcribeFramesTesseractCLI\<close>

text \<open>
  What one worker goroutine does with frame number \<open>i\<close> at path \<open>fp\<close>: the value it
  sends on \<open>frameResults\<close> (a text and an error, of which one is empty) and its events.
  The deferred \<open>os.Remove\<close> of the temporary file runs on every return after the file
  was created.
\<close>

type_synonym frameResult = "string \<times> error option"

definition ocrWorker :: "env \<Rightarrow> nat \<Rightarrow> string \<Rightarrow> frameResult \<times> event list" where
  "ocrWorker E i fp =
     (case osOpen E i fp of
        Some err \<Rightarrow>
          (([], Some (Errorf ''error opening image file %s: %w'' [VStr fp, VErr err])),
           [OpenFile fp])
      | None \<Rightarrow>
     (case imageDecode E i fp of
        Some err \<Rightarrow>
          (([], Some (Errorf ''error decoding image file %s: %w'' [VStr fp, VErr err])),
           [OpenFile fp, CloseFile fp])
      | None \<Rightarrow>
     (case jpegEncode E i fp of
        Inl err \<Rightarrow>
          (([], Some (Errorf ''error encoding image to JPEG: %w'' [VErr err])),
           [OpenFile fp, CloseFile fp])
      | Inr jpegBytes \<Rightarrow>
     (case createTemp E i of
        Inl err \<Rightarrow>
          (([], Some (Errorf ''error creating temp file: %w'' [VErr err])),
           [OpenFile fp, CloseFile fp, CreateTemp ''ocr_*.jpg''])
      | Inr tempFilePath \<Rightarrow>
     (let pre = [OpenFile fp, CloseFile fp, CreateTemp ''ocr_*.jpg'',
                 FileWrite tempFilePath jpegBytes]
      in case fileWrite E tempFilePath jpegBytes of
           Some err \<Rightarrow>
             (([], Some (Errorf ''error writing to temp file: %w'' [VErr err])),
              pre @ [CloseFile tempFilePath, Remove tempFilePath])
         | None \<Rightarrow>
     (case fileClose E tempFilePath of
        Some err \<Rightarrow>
          (([], Some (Errorf ''error closing temp file: %w'' [VErr err])),
           pre @ [CloseFile tempFilePath, Remove tempFilePath])
      | None \<Rightarrow>
     (let out = runCmd E ''tesseract'' [tempFilePath, ''stdout''];
          pre' = pre @ [CloseFile tempFilePath, Exec ''tesseract'' [tempFilePath, ''stdout'']]
      in case exitErr out of
           Some err \<Rightarrow>
             (([], Some (Errorf ''error running tesseract on %s: %w, stderr: %s''
                          [VStr fp, VErr err, VStr (stderr out)])),
              pre' @ [Remove tempFilePath])
         | None \<Rightarrow> ((stdout out, None), pre' @ [Remove tempFilePath]))))))))"

definition numWorkers :: "env \<Rightarrow> nat" where
  "numWorkers E = (if numCPU E > 8 then 8 else numCPU E)"

text \<open>
  The pool. \<open>pending\<close> are the frames the launching loop has not reached, \<open>running\<close> the
  workers that hold a slot of the semaphore \<open>guard\<close>, \<open>chan\<close> the results sent so far.
  At each step the scheduler picks one of the moves that can be made: the loop launches the
  next worker (when a slot is free), or one of the running workers sends its result,
  removes its temporary file and releases its slot. The events of a worker are recorded
  as one block when it finishes. The channel has room for every result, so a send never
  waits. With no slot at all nothing can move and the launching loop waits for ever.
\<close>

function poolRun ::
  "env \<Rightarrow> string list \<Rightarrow> nat \<Rightarrow> nat \<Rightarrow> (nat \<times> string) list \<Rightarrow> (nat \<times> string) list
     \<Rightarrow> frameResult list \<Rightarrow> event list \<Rightarrow> frameResult list result \<times> event list" where
  "poolRun E key slots step pending running chan evs =
     (if pending = [] \<and> running = [] then (Ok chan, evs)
      else
        (let canLaunch = (pending \<noteq> [] \<and> length running < slots);
             moves = (if canLaunch then 1 else 0) + length running
         in if moves = 0 then (Hang, evs)
            else
              (let c = ocrSchedule E key step mod moves
               in if canLaunch \<and> c = 0 then
                    poolRun E key slots (step + 1) (tl pending) (running @ [hd pending]) chan evs
                  else
                    (let j = (if canLaunch then c - 1 else c);
                         w = ocrWorker E (fst (running ! j)) (snd (running ! j))
                     in poolRun E key slots (step + 1) pending
                          (take j running @ drop (Suc j) running)
                          (chan @ [fst w]) (evs @ snd w)))))"
  by pat_completeness auto
termination
proof (relation "measure (\<lambda>(E, key, slots, step, pending, running, chan, evs).
                    2 * length pending + length running)", goal_cases)
  case 1
  show ?case by simp
next
  case (2 E key slots step pending running chan evs canLaunch moves c)
  then show ?case by (cases pending) auto
next
  case (3 E key slots step pending running chan evs canLaunch moves c j w)
  have mv: "moves = (if canLaunch then 1 else 0) + length running" and "moves \<noteq> 0"
    and c: "c = ocrSchedule E key step mod moves" and nl: "\<not> (canLaunch \<and> c = 0)"
    and j: "j = (if canLaunch then c - 1 else c)"
    using 3 by blast+
  have cm: "c < moves" using c \<open>moves \<noteq> 0\<close> by simp
  have "j < length running"
  proof (cases canLaunch)
    case True
    with nl mv j have "c \<noteq> 0" and "moves = 1 + length running" and "j = c - 1"
      by simp_all
    with cm show ?thesis by arith
  next
    case False
    with mv j have "moves = length running" and "j = c"
      by simp_all
    with cm show ?thesis by simp
  qed
  then show ?case by simp
qed

declare poolRun.simps [simp del]

text \<open>
  After \<open>wg.Wait()\<close> the channel is closed and read in order: a result with an error is
  logged and skipped, a text is appended with a line feed.
\<close>

fun collectLoop :: "frameResult list \<Rightarrow> string \<times> event list" where
  "collectLoop [] = ([], [])"
| "collectLoop ((text, Some err) # rest) =
     (let (s, evs) = collectLoop rest in (s, LogPrint ''%v'' [VErr err] # evs))"
| "collectLoop ((text, None) # rest) =
     (let (s, evs) = collectLoop rest in (text @ nl @ s, evs))"

definition transcribeFramesTesseractCLI :: "env \<Rightarrow> string list \<Rightarrow> string result \<times> event list" where
  "transcribeFramesTesseractCLI E framePaths =
     (case poolRun E framePaths (numWorkers E) 0 (enumerate 0 framePaths) [] [] [] of
        (Ok chan, evs) \<Rightarrow> (let (s, evs') = collectLoop chan in (Ok s, evs @ evs'))
      | (Failed err, evs) \<Rightarrow> (Failed err, evs)
      | (Panic msg, evs) \<Rightarrow> (Panic msg, evs)
      | (Hang, evs) \<Rightarrow> (Hang, evs))"


section \<open>transcribeVideoLLM\<close>

definition transcriptionPrompt :: "string \<Rightarrow> part list" where
  "transcriptionPrompt uri =
     [Text (''## Task Description'' @ nl @
            ''Analyze the video and provide a detailed raw transcription of text displayed in the video.''),
      FileData uri]"

text \<open>The cleanup of the extracted frames: \<open>os.RemoveAll(filepath.Dir(framePaths[0]))\<close>,
  only when there is a first frame.\<close>

definition framesCleanup :: "env \<Rightarrow> string list \<Rightarrow> event list" where
  "framesCleanup E framePaths =
     (if length framePaths > 0 then [RemoveAll (filepathDir E (hd framePaths))] else [])"

definition extractErr :: "int \<Rightarrow> int \<Rightarrow> error \<Rightarrow> error" where
  "extractErr videoIndex chunkNum err =
     Errorf ''error extracting frames for video %d chunk %d: %w''
       [VInt videoIndex, VInt chunkNum, VErr err]"

definition tesseractErr :: "int \<Rightarrow> int \<Rightarrow> error \<Rightarrow> error" where
  "tesseractErr videoIndex chunkNum err =
     Errorf ''error transcribing frames with Tesseract for video %d chunk %d: %w''
       [VInt videoIndex, VInt chunkNum, VErr err]"

text \<open>
  The function has three paths after the upload. The deferred \<open>client.DeleteFile\<close> is
  registered after a successful upload, so it runs on each return of the second and third
  path (and while a panic unwinds), and not on the first; its result is dropped. A
  goroutine that blocks for ever runs no deferred call.
\<close>

definition transcribeVideoLLM ::
  "env \<Rightarrow> string \<Rightarrow> int \<Rightarrow> int \<Rightarrow> string result \<times> event list" where
  "transcribeVideoLLM E videoPath videoIndex chunkNum =
     (case uploadFile E videoPath of
        Inl uploadErr \<Rightarrow>
          (let pre = [UploadFile videoPath,
                      Printf ''Chunk %d for video %d: LLM upload failed, falling back to Tesseract...''
                        [VInt chunkNum, VInt videoIndex]]
           in case extractFrames E videoPath videoIndex chunkNum of
                (Ok framePaths, evs1) \<Rightarrow>
                  (case transcribeFramesTesseractCLI E framePaths of
                     (Ok transcript, evs2) \<Rightarrow>
                       (Ok transcript, pre @ evs1 @ evs2 @ framesCleanup E framePaths)
                   | (Failed err, evs2) \<Rightarrow>
                       (Failed (tesseractErr videoIndex chunkNum err), pre @ evs1 @ evs2)
                   | (Panic msg, evs2) \<Rightarrow> (Panic msg, pre @ evs1 @ evs2)
                   | (Hang, evs2) \<Rightarrow> (Hang, pre @ evs1 @ evs2))
              | (Failed err, evs1) \<Rightarrow> (Failed (extractErr videoIndex chunkNum err), pre @ evs1)
              | (Panic msg, evs1) \<Rightarrow> (Panic msg, pre @ evs1)
              | (Hang, evs1) \<Rightarrow> (Hang, pre @ evs1))
      | Inr (name, uri) \<Rightarrow>
          (let pre = [UploadFile videoPath,
                      Printf ''Waiting for 30 seconds after file upload to ensure file activation...'' [],
                      Sleep 30,
                      Printf ''Chunk %d for video %d: Video chunk uploaded as: %s''
                        [VInt chunkNum, VInt videoIndex, VStr uri]];
               deferred = [DeleteFile name];
               (videoTranscript, evs0) = sentLlmPrompt E (transcriptionPrompt uri) None videoIndex
           in if videoTranscript = [] then
                (let pre' = pre @ evs0 @
                       [Printf ''Chunk %d for video %d: LLM transcription failed, falling back to Tesseract...''
                          [VInt chunkNum, VInt videoIndex]]
                 in case extractFrames E videoPath videoIndex chunkNum of
                      (Ok framePaths, evs1) \<Rightarrow>
                        (case transcribeFramesTesseractCLI E framePaths of
                           (Ok transcript, evs2) \<Rightarrow>
                             (Ok transcript,
                              pre' @ evs1 @ evs2 @ framesCleanup E framePaths @ deferred)
                         | (Failed err, evs2) \<Rightarrow>
                             (Failed (tesseractErr videoIndex chunkNum err),
                              pre' @ evs1 @ evs2 @ framesCleanup E framePaths @ deferred)
                         | (Panic msg, evs2) \<Rightarrow> (Panic msg, pre' @ evs1 @ evs2 @ deferred)
                         | (Hang, evs2) \<Rightarrow> (Hang, pre' @ evs1 @ evs2))
                    | (Failed err, evs1) \<Rightarrow>
                        (Failed (extractErr videoIndex chunkNum err), pre' @ evs1 @ deferred)
                    | (Panic msg, evs1) \<Rightarrow> (Panic msg, pre' @ evs1 @ deferred)
                    | (Hang, evs1) \<Rightarrow> (Hang, pre' @ evs1))
              else
                (Ok videoTranscript,
                 pre @ evs0 @
                 [Printf ''Chunk %d for video %d: Video transcribed by LLM.''
                    [VInt chunkNum, VInt videoIndex]] @ deferred)))"

text \<open>
  The words of the specification, to compare the two fallback paths with: FallbackOCR
  runs the frame sampler on the segment's video, then the recognition ensemble on the
  frames, and its result is final; a failure of the frame extraction is the task's error.
\<close>

definition fallbackOCR :: "env \<Rightarrow> string \<Rightarrow> int \<Rightarrow> int \<Rightarrow> string result" where
  "fallbackOCR E videoPath videoIndex chunkNum =
     (case fst (extractFrames E videoPath videoIndex chunkNum) of
        Ok framePaths \<Rightarrow>
          (case fst (transcribeFramesTesseractCLI E framePaths) of
             Failed err \<Rightarrow> Failed (tesseractErr videoIndex chunkNum err)
           | r \<Rightarrow> r)
      | Failed err \<Rightarrow> Failed (extractErr videoIndex chunkNum err)
      | Panic msg \<Rightarrow> Panic msg
      | Hang \<Rightarrow> Hang)"

fun uploads :: "event list \<Rightarrow> nat" where
  "uploads [] = 0"
| "uploads (UploadFile p # evs) = Suc (uploads evs)"
| "uploads (e # evs) = uploads evs"

fun deletions :: "event list \<Rightarrow> string list" where
  "deletions [] = []"
| "deletions (DeleteFile n # evs) = n # deletions evs"
| "deletions (e # evs) = deletions evs"


text \<open>The result of each frame's worker, in the order of the input list.\<close>

definition workerResult :: "env \<Rightarrow> nat \<times> string \<Rightarrow> frameResult" where
  "workerResult E p = fst (ocrWorker E (fst p) (snd p))"



definition failed :: "frameResult \<Rightarrow> bool" where
  "failed r = (snd r \<noteq> None)"



definition workerEvents :: "env \<Rightarrow> nat \<times> string \<Rightarrow> event list" where
  "workerEvents E p = snd (ocrWorker E (fst p) (snd p))"


text \<open>The events that reach the cloud model.\<close>

fun cloudEvent :: "event \<Rightarrow> bool" where
  "cloudEvent (UploadFile p) = True"
| "cloudEvent (DeleteFile n) = True"
| "cloudEvent (GenerateContent p) = True"
| "cloudEvent e = False"

text \<open>An upload that is refused, with frames that the local recognition reads; an
  upload that works with a model that answers nothing; and a model that answers while
  the deletion of the uploaded file fails.\<close>

definition localEnv :: env where
  "localEnv = quietEnv
     \<lparr> walkDir := (\<lambda>dir. [WalkEntry dir ''frames'' True,
                            WalkEntry (dir @ ''/frame_0001.jpg'') ''frame_0001.jpg'' False,
                            WalkEntry (dir @ ''/frame_0002.jpg'') ''frame_0002.jpg'' False]),
       runCmd := (\<lambda>name args.
         \<lparr>stdout = (if name = ''tesseract'' then ''slide'' else []), stderr = [],
          combined = [], exitErr = None\<rparr>) \<rparr>"

definition offlineEnv :: env where
  "offlineEnv = localEnv \<lparr> uploadFile := (\<lambda>path. Inl (EnvErr ''no route to host'')) \<rparr>"

definition deleteFailsEnv :: env where
  "deleteFailsEnv = quietEnv
     \<lparr> generateContent := (\<lambda>prompt attempt. Inr [Some [Text ''slide 1'']]),
       deleteFile := (\<lambda>name. Some (EnvErr ''permission denied'')) \<rparr>"


section \<open>transcribeAudioWhisperCLI\<close>

record whisperCfg =
  whisperCLIPath :: string
  whisperModelPath :: string
  whisperThreads :: int
  whisperLanguage :: string

definition whisperArgs :: "whisperCfg \<Rightarrow> string \<Rightarrow> string list" where
  "whisperArgs W audioPath =
     [''--model'', whisperModelPath W, ''--threads'', itoa (whisperThreads W)]
     @ (if whisperLanguage W \<noteq> [] then [''--language'', whisperLanguage W] else [])
     @ [audioPath]"

definition transcribeAudioWhisperCLI ::
  "env \<Rightarrow> string \<Rightarrow> whisperCfg \<Rightarrow> int \<Rightarrow> int \<Rightarrow> string result \<times> event list" where
  "transcribeAudioWhisperCLI E audioPath W videoIndex chunkNum =
     (let out = runCmd E (whisperCLIPath W) (whisperArgs W audioPath);
          evs = [Printf ''Starting whisper-cli for video %d chunk %d, Audio Path: %s''
                   [VInt videoIndex, VInt chunkNum, VStr audioPath],
                 Exec (whisperCLIPath W) (whisperArgs W audioPath),
                 Printf ''Whisper-cli finished for video %d chunk %d in %v''
                   [VInt videoIndex, VInt chunkNum, VDur]]
      in case exitErr out of
           Some err \<Rightarrow>
             (Failed (Errorf ''error running whisper-cli for video %d chunk %d: %w, stderr: %s''
                        [VInt videoIndex, VInt chunkNum, VErr err, VStr (stderr out)]),
              evs)
         | None \<Rightarrow> (Ok (stdout out), evs))"

section \<open>processChunk\<close>

text \<open>
  processChunk starts two goroutines, one for the audio and one for the video of the
  chunk, and waits for both. The two bodies have the same shape, so one step function
  serves both, with the task as a parameter. Each goroutine is a small sequential
  program; its program counter says what it does next:
  \<^item> \<open>Start\<close>: run the transcription;
  \<^item> \<open>SendErr e\<close>: send the transcription error on \<open>errorChannel\<close>, then take the
    placeholder as transcript;
  \<^item> \<open>Write t\<close>: write the record with transcript \<open>t\<close> to the task's output file;
  \<^item> \<open>SendWriteErr e\<close>: send the write error on \<open>errorChannel\<close>;
  \<^item> \<open>Finish\<close>: print the progress line and remove the chunk's artifact;
  \<^item> \<open>Done\<close>: \<open>wg.Done()\<close> has run.
  \<open>Stuck\<close> is a goroutine whose transcription never returned, \<open>Crashed\<close> one that
  panicked.

  \<open>errorChannel\<close> is a buffered channel that nothing reads while chunks are processed
  (main drains it after the last video), so a send succeeds while the buffer has room and
  blocks for ever once it is full. The channel is its capacity and its buffered errors.
\<close>

datatype task = Audio | Video

datatype tpc = Start | SendErr error | Write string | SendWriteErr error | Finish | Done
  | Stuck | Crashed string

definition chunkRecord :: "int \<Rightarrow> int \<Rightarrow> string \<Rightarrow> string" where
  "chunkRecord videoIndex chunkNum body =
     ''Video Index: '' @ itoa videoIndex @ '', Chunk: '' @ itoa chunkNum @ nl @ body @ nl"

definition taskRun :: "env \<Rightarrow> whisperCfg \<Rightarrow> ChunkData \<Rightarrow> task \<Rightarrow> string result \<times> event list" where
  "taskRun E W chunk t =
     (case t of
        Audio \<Rightarrow> transcribeAudioWhisperCLI E (AudioPath chunk) W (VideoIndex chunk) (ChunkNum chunk)
      | Video \<Rightarrow> transcribeVideoLLM E (VideoPath chunk) (VideoIndex chunk) (ChunkNum chunk))"

definition taskErr :: "task \<Rightarrow> ChunkData \<Rightarrow> error \<Rightarrow> error" where
  "taskErr t chunk err =
     Errorf (case t of
               Audio \<Rightarrow> ''error transcribing audio for video %d chunk %d: %w''
             | Video \<Rightarrow> ''error transcribing video for video %d chunk %d: %w'')
       [VInt (VideoIndex chunk), VInt (ChunkNum chunk), VErr err]"

definition taskPlaceholder :: "task \<Rightarrow> ChunkData \<Rightarrow> string" where
  "taskPlaceholder t chunk =
     (case t of Audio \<Rightarrow> ''Audio'' | Video \<Rightarrow> ''Video'')
     @ '' transcription failed for video '' @ itoa (VideoIndex chunk)
     @ '' chunk '' @ itoa (ChunkNum chunk) @ ''.''"

definition taskOut :: "task \<Rightarrow> string \<Rightarrow> string \<Rightarrow> string" where
  "taskOut t audioOutputFile videoOutputFile =
     (case t of Audio \<Rightarrow> audioOutputFile | Video \<Rightarrow> videoOutputFile)"

definition taskWriteErr :: "task \<Rightarrow> ChunkData \<Rightarrow> error \<Rightarrow> error" where
  "taskWriteErr t chunk err =
     Errorf (case t of
               Audio \<Rightarrow> ''error writing to audio file for video %d chunk %d: %v''
             | Video \<Rightarrow> ''error writing to video file for video %d chunk %d: %v'')
       [VInt (VideoIndex chunk), VInt (ChunkNum chunk), VErr err]"

definition taskDoneMsg :: "task \<Rightarrow> string" where
  "taskDoneMsg t =
     (case t of
        Audio \<Rightarrow> ''Chunk %d for video %d: Audio transcribed and written to audio output file.''
      | Video \<Rightarrow> ''Chunk %d for video %d: Video transcribed and written to video output file.'')"

definition taskArtifact :: "task \<Rightarrow> ChunkData \<Rightarrow> string" where
  "taskArtifact t chunk = (case t of Audio \<Rightarrow> AudioPath chunk | Video \<Rightarrow> VideoPath chunk)"

text \<open>
  One step of a goroutine: the new program counter, the new buffer of the channel and
  the events of the step; \<open>None\<close> when the goroutine cannot move.
\<close>

definition taskStep ::
  "env \<Rightarrow> whisperCfg \<Rightarrow> ChunkData \<Rightarrow> string \<Rightarrow> string \<Rightarrow> nat \<Rightarrow> task \<Rightarrow> tpc \<Rightarrow> error list
     \<Rightarrow> (tpc \<times> error list \<times> event list) option" where
  "taskStep E W chunk audioOutputFile videoOutputFile cap t pc buf =
     (case pc of
        Start \<Rightarrow>
          (case taskRun E W chunk t of
             (Ok transcript, evs) \<Rightarrow> Some (Write transcript, buf, evs)
           | (Failed err, evs) \<Rightarrow> Some (SendErr (taskErr t chunk err), buf, evs)
           | (Panic msg, evs) \<Rightarrow> Some (Crashed msg, buf, evs)
           | (Hang, evs) \<Rightarrow> Some (Stuck, buf, evs))
      | SendErr e \<Rightarrow>
          (if length buf < cap then Some (Write (taskPlaceholder t chunk), buf @ [e], [ChanSend e])
           else None)
      | Write transcript \<Rightarrow>
          (let out = taskOut t audioOutputFile videoOutputFile;
               data = chunkRecord (VideoIndex chunk) (ChunkNum chunk) transcript
           in case fileWrite E out data of
                Some err \<Rightarrow> Some (SendWriteErr (taskWriteErr t chunk err), buf, [FileWrite out data])
              | None \<Rightarrow> Some (Finish, buf, [FileWrite out data]))
      | SendWriteErr e \<Rightarrow>
          (if length buf < cap then Some (Finish, buf @ [e], [ChanSend e]) else None)
      | Finish \<Rightarrow>
          Some (Done, buf,
                [Printf (taskDoneMsg t) [VInt (ChunkNum chunk), VInt (VideoIndex chunk)],
                 Remove (taskArtifact t chunk)])
      | Done \<Rightarrow> None
      | Stuck \<Rightarrow> None
      | Crashed msg \<Rightarrow> None)"

text \<open>The number of steps a goroutine can still make, at most.\<close>

fun rank :: "tpc \<Rightarrow> nat" where
  "rank Start = 5"
| "rank (SendErr e) = 4"
| "rank (Write t) = 3"
| "rank (SendWriteErr e) = 2"
| "rank Finish = 1"
| "rank pc = 0"

lemma taskStep_rank:
  "taskStep E W chunk ao vo cap t pc buf = Some (pc', buf', evs) \<Longrightarrow> rank pc' < rank pc"
  by (auto simp: taskStep_def Let_def split: tpc.splits prod.splits result.splits if_splits
                 option.splits)

fun crashed :: "tpc \<Rightarrow> string option" where
  "crashed (Crashed msg) = Some msg"
| "crashed pc = None"

text \<open>
  The events of a chunk carry the goroutine that made them: \<open>None\<close> for the goroutine
  that called processChunk.
\<close>

type_synonym tagged = "task option \<times> event"

definition tag :: "task \<Rightarrow> event list \<Rightarrow> tagged list" where
  "tag t evs = map (Pair (Some t)) evs"

text \<open>
  The two goroutines under a scheduler. At each step the scheduler names the goroutine
  it would run; when that one cannot move the other one runs. When neither can move,
  \<open>wg.Wait()\<close> returns if both are done, and waits for ever otherwise. A panic in a
  goroutine ends the program.
\<close>

function chunkRun ::
  "env \<Rightarrow> whisperCfg \<Rightarrow> ChunkData \<Rightarrow> string \<Rightarrow> string \<Rightarrow> nat \<Rightarrow> nat \<Rightarrow> tpc \<Rightarrow> tpc
     \<Rightarrow> error list \<Rightarrow> tagged list \<Rightarrow> unit result \<times> error list \<times> tagged list" where
  "chunkRun E W chunk ao vo cap step apc vpc buf trace =
     (case crashed apc of Some msg \<Rightarrow> (Panic msg, buf, trace) | None \<Rightarrow>
      case crashed vpc of Some msg \<Rightarrow> (Panic msg, buf, trace) | None \<Rightarrow>
      (let a = taskStep E W chunk ao vo cap Audio apc buf;
           v = taskStep E W chunk ao vo cap Video vpc buf
       in if a = None \<and> v = None then
            (if apc = Done \<and> vpc = Done then (Ok (), buf, trace) else (Hang, buf, trace))
          else if a \<noteq> None \<and> (chunkSchedule E (VideoIndex chunk) (ChunkNum chunk) step \<or> v = None)
          then
            (case a of
               Some (apc', buf', evs) \<Rightarrow>
                 chunkRun E W chunk ao vo cap (step + 1) apc' vpc buf' (trace @ tag Audio evs)
             | None \<Rightarrow> (Hang, buf, trace))
          else
            (case v of
               Some (vpc', buf', evs) \<Rightarrow>
                 chunkRun E W chunk ao vo cap (step + 1) apc vpc' buf' (trace @ tag Video evs)
             | None \<Rightarrow> (Hang, buf, trace))))"
  by pat_completeness auto
termination
proof (relation "measure (\<lambda>(E, W, chunk, ao, vo, cap, step, apc, vpc, buf, trace).
                    rank apc + rank vpc)", goal_cases)
  case 1
  show ?case by simp
next
  case (2 E W chunk ao vo cap step apc vpc buf trace a v x2 apc' y buf' evs)
  then have "taskStep E W chunk ao vo cap Audio apc buf = Some (apc', buf', evs)" by simp
  from taskStep_rank[OF this] show ?case by simp
next
  case (3 E W chunk ao vo cap step apc vpc buf trace a v x2 vpc' y buf' evs)
  then have "taskStep E W chunk ao vo cap Video vpc buf = Some (vpc', buf', evs)" by simp
  from taskStep_rank[OF this] show ?case by simp
qed

declare chunkRun.simps [simp del]

definition processChunk ::
  "env \<Rightarrow> whisperCfg \<Rightarrow> ChunkData \<Rightarrow> string \<Rightarrow> string \<Rightarrow> nat \<Rightarrow> error list
     \<Rightarrow> unit result \<times> error list \<times> tagged list" where
  "processChunk E W chunk audioOutputFile videoOutputFile cap buf =
     (case Err chunk of
        Some err \<Rightarrow>
          (if length buf < cap then (Ok (), buf @ [err], [(None, ChanSend err)])
           else (Hang, buf, []))
      | None \<Rightarrow>
          (case chunkRun E W chunk audioOutputFile videoOutputFile cap 0 Start Start buf
                  [(None, Printf ''Processing chunk %d for video %d...''
                            [VInt (ChunkNum chunk), VInt (VideoIndex chunk)])] of
             (Ok u, buf', trace) \<Rightarrow>
               (Ok u, buf',
                trace @ [(None, Printf ''Finished processing chunk %d for video %d.''
                                  [VInt (ChunkNum chunk), VInt (VideoIndex chunk)])])
           | (r, buf', trace) \<Rightarrow> (r, buf', trace)))"

text \<open>
  The data of the write calls made to a file, in order. A call is listed whether or not
  the environment lets the write succeed; \<open>fileWrite E\<close> tells which.
\<close>

fun records :: "string \<Rightarrow> event list \<Rightarrow> string list" where
  "records name [] = []"
| "records name (FileWrite f d # evs) = (if f = name then d # records name evs else records name evs)"
| "records name (e # evs) = records name evs"



definition whisperSetup :: whisperCfg where
  "whisperSetup =
     \<lparr> whisperCLIPath = ''whisper-cli'', whisperModelPath = ''ggml-base.bin'',
       whisperThreads = 4, whisperLanguage = ''en'' \<rparr>"







text \<open>
  \<open>before a b xs\<close>: reading \<open>xs\<close> from its start, \<open>a\<close> is met before any \<open>b\<close>, or
  there is no \<open>b\<close> at all.
\<close>

fun before :: "'a \<Rightarrow> 'a \<Rightarrow> 'a list \<Rightarrow> bool" where
  "before a b [] = True"
| "before a b (x # xs) = (if x = a then True else if x = b then False else before a b xs)"







section \<open>main: the loop over the videos\<close>

text \<open>The loop \<open>for _, chunkData := range chunks\<close>: a chunk that never returns ends it.\<close>

fun chunksLoop ::
  "env \<Rightarrow> whisperCfg \<Rightarrow> string \<Rightarrow> string \<Rightarrow> nat \<Rightarrow> ChunkData list \<Rightarrow> error list
     \<Rightarrow> unit result \<times> error list \<times> event list" where
  "chunksLoop E W ao vo cap [] buf = (Ok (), buf, [])"
| "chunksLoop E W ao vo cap (chunkData # rest) buf =
     (case processChunk E W chunkData ao vo cap buf of
        (Ok u, buf', trace) \<Rightarrow>
          (let (r, buf'', evs) = chunksLoop E W ao vo cap rest buf'
           in (r, buf'', map snd trace @ evs))
      | (r, buf', trace) \<Rightarrow> (r, buf', map snd trace))"

definition trimSuffix :: "string \<Rightarrow> string \<Rightarrow> string" where
  "trimSuffix s suffix = (if hasSuffix s suffix then take (length s - length suffix) s else s)"

definition baseNameOf :: "env \<Rightarrow> string \<Rightarrow> string" where
  "baseNameOf E videoPath =
     trimSuffix (filepathBase E videoPath) (Ext (goosWindows E) videoPath)"

definition combinedPromptText :: "string \<Rightarrow> string \<Rightarrow> string" where
  "combinedPromptText audio video =
     ''Here is a raw transcription of a video. Your task is to refine it into a well-structured, human-like summary with explanations while keeping all the original details. Analyze the lecture provided in the audio transcription and video text.  Identify the main topic, key arguments, supporting evidence, and any examples used.  Explain the lecture in a structured way, highlighting the connections between different ideas.  Use information from both the audio transcription and video text to create a comprehensive explanation, also use timestamp to help us correlate with the audio transcript:''
     @ nl @ nl @ ''    --- RAW TRANSCRIPTION of Audio ---'' @ nl @ ''    '' @ audio
     @ nl @ nl @ ''    --- RAW TRANSCRIPTION of Video Text ---'' @ nl @ ''    '' @ video
     @ nl @ nl @ ''    Please rewrite it clearly with explanations where needed, ensuring it''
     @ [CHR 0x27] @ ''s easy to read and understand.''"

definition completeMarker :: "int \<Rightarrow> string" where
  "completeMarker n = nl @ ''--- VIDEO '' @ itoa n @ '' PROCESSING COMPLETE ---'' @ nl @ nl"

text \<open>How the process ends.\<close>

datatype outcome = Completed | Exited int | Hung | Panicked string

text \<open>
  The capacity of \<open>errorChannel\<close>, from \<open>make(chan error, 10)\<close>.
\<close>

definition errorChannelCap :: nat where
  "errorChannelCap = 10"

text \<open>
  What main does once the loop is over: close and drain the error channel, print, and run
  the deferred closes of the videos' files, last registered first.
\<close>

definition mainEnd :: "error list \<Rightarrow> string list \<Rightarrow> event list" where
  "mainEnd buf deferred =
     map (\<lambda>err. LogPrint ''Error from goroutine:'' [VErr err]) buf
     @ [Printf ''All videos processing complete.'' [], Printf ''Exiting.'' []]
     @ map CloseFile deferred"

text \<open>
  One round of the loop \<open>for videoIndex, videoPath := range videoPaths\<close> either goes on to
  the next video (with the error channel and the deferred closes as they are then) or ends
  the process. \<open>log.Fatalf\<close> prints and calls \<open>os.Exit(1)\<close>: the process ends there, no
  deferred call runs, and the \<open>continue\<close> written after it is never reached.
\<close>

datatype round = Continue "error list" "string list" | Stop outcome

definition createOutputs ::
  "env \<Rightarrow> string \<Rightarrow> string \<Rightarrow> string \<Rightarrow> string \<Rightarrow> bool \<times> event list" where
  "createOutputs E videoPath outputFileName audioOutputFileName videoOutputFileName =
     (case osCreate E outputFileName of
        Some err \<Rightarrow>
          (False,
           [CreateFile outputFileName,
            LogPrint ''Error creating output file for video %s: %v'' [VStr videoPath, VErr err],
            OsExit 1])
      | None \<Rightarrow>
     (case osCreate E audioOutputFileName of
        Some err \<Rightarrow>
          (False,
           [CreateFile outputFileName, CreateFile audioOutputFileName,
            LogPrint ''Error creating audio output file for video %s: %v''
              [VStr videoPath, VErr err],
            OsExit 1])
      | None \<Rightarrow>
     (case osCreate E videoOutputFileName of
        Some err \<Rightarrow>
          (False,
           [CreateFile outputFileName, CreateFile audioOutputFileName,
            CreateFile videoOutputFileName,
            LogPrint ''Error creating video output file for video %s: %v''
              [VStr videoPath, VErr err],
            OsExit 1])
      | None \<Rightarrow>
          (True,
           [CreateFile outputFileName, CreateFile audioOutputFileName,
            CreateFile videoOutputFileName,
            Printf ''Output files created for video:'' [VStr videoPath]]))))"

text \<open>The end of a round, after every chunk was processed: read the two transcripts
  back, send the combined prompt, write the completion markers.\<close>

definition refine ::
  "env \<Rightarrow> string \<Rightarrow> int \<Rightarrow> string \<Rightarrow> string \<Rightarrow> string \<Rightarrow> event list" where
  "refine E videoPath videoIndex outputFileName audioOutputFileName videoOutputFileName =
     (case readFile E audioOutputFileName of
        Inl err \<Rightarrow>
          [ReadFile audioOutputFileName,
           LogPrint ''Error reading audio output file: %v'' [VErr err]]
      | Inr audioContent \<Rightarrow>
     (case readFile E videoOutputFileName of
        Inl err \<Rightarrow>
          [ReadFile audioOutputFileName, ReadFile videoOutputFileName,
           LogPrint ''Error reading video output file: %v'' [VErr err]]
      | Inr videoContent \<Rightarrow>
          [ReadFile audioOutputFileName, ReadFile videoOutputFileName]
          @ snd (sentLlmPrompt E [Text (combinedPromptText audioContent videoContent)]
                   (Some outputFileName) (videoIndex + 1))
          @ [Printf ''--- FINISHED PROCESSING VIDEO %d: %s ---''
               [VInt (videoIndex + 1), VStr videoPath],
             FileWrite outputFileName (completeMarker (videoIndex + 1)),
             FileWrite audioOutputFileName (completeMarker (videoIndex + 1)),
             FileWrite videoOutputFileName (completeMarker (videoIndex + 1))]))"

definition videoRound ::
  "env \<Rightarrow> whisperCfg \<Rightarrow> int \<Rightarrow> int \<Rightarrow> string \<Rightarrow> error list \<Rightarrow> string list
     \<Rightarrow> round \<times> event list" where
  "videoRound E W chunkDuration videoIndex videoPath buf deferred =
     (let baseName = baseNameOf E videoPath;
          outputFileName = baseName @ ''_output.txt'';
          audioOutputFileName = baseName @ ''_audio_output.txt'';
          videoOutputFileName = baseName @ ''_video_output.txt'';
          ev0 = [Printf ''--- START PROCESSING VIDEO %d: %s ---''
                   [VInt (videoIndex + 1), VStr videoPath],
                 Printf ''Creating output files for video:'' [VStr videoPath]]
      in case createOutputs E videoPath outputFileName audioOutputFileName videoOutputFileName of
           (False, evs) \<Rightarrow> (Stop (Exited 1), ev0 @ evs)
         | (True, evs) \<Rightarrow>
      (let deferred' = videoOutputFileName # audioOutputFileName # outputFileName # deferred;
           ev1 = ev0 @ evs @ [Printf ''Chunking video sequentially...'' []]
       in case chunkVideo E videoPath chunkDuration (videoIndex + 1) baseName of
            (Ok chunks, evs) \<Rightarrow>
              (let ev2 = ev1 @ evs @ [Printf ''Video chunking complete.'' [],
                                       Printf ''Processing video chunks in parallel...'' []]
               in case chunksLoop E W audioOutputFileName videoOutputFileName errorChannelCap
                         chunks buf of
                    (Ok u, buf', evs) \<Rightarrow>
                      (Continue buf' deferred',
                       ev2 @ evs
                       @ [Printf ''All video chunks processed. Sending combined prompt to LLM...'' []]
                       @ refine E videoPath videoIndex outputFileName audioOutputFileName
                           videoOutputFileName)
                  | (Panic msg, buf', evs) \<Rightarrow> (Stop (Panicked msg), ev2 @ evs)
                  | (r, buf', evs) \<Rightarrow> (Stop Hung, ev2 @ evs))
          | (Failed err, evs) \<Rightarrow>
              (Continue buf deferred',
               ev1 @ evs @ [LogPrint ''Error chunking video %s: %v'' [VStr videoPath, VErr err]])
          | (Panic msg, evs) \<Rightarrow> (Stop (Panicked msg), ev1 @ evs)
          | (Hang, evs) \<Rightarrow> (Stop Hung, ev1 @ evs)))"

fun videosLoop ::
  "env \<Rightarrow> whisperCfg \<Rightarrow> int \<Rightarrow> int \<Rightarrow> string list \<Rightarrow> error list \<Rightarrow> string list
     \<Rightarrow> outcome \<times> event list" where
  "videosLoop E W chunkDuration videoIndex [] buf deferred = (Completed, mainEnd buf deferred)"
| "videosLoop E W chunkDuration videoIndex (videoPath # rest) buf deferred =
     (case videoRound E W chunkDuration videoIndex videoPath buf deferred of
        (Stop oc, evs) \<Rightarrow> (oc, evs)
      | (Continue buf' deferred', evs) \<Rightarrow>
          (let (oc, evs') = videosLoop E W chunkDuration (videoIndex + 1) rest buf' deferred'
           in (oc, evs @ evs')))"

text \<open>
  main from the point where the list of videos is known: an empty list ends the program
  at once, otherwise the loop runs with an empty error channel.
\<close>

definition mainVideos :: "env \<Rightarrow> whisperCfg \<Rightarrow> int \<Rightarrow> string list \<Rightarrow> outcome \<times> event list" where
  "mainVideos E W chunkDuration videoPaths =
     (if length videoPaths = 0 then (Completed, [Printf ''No video files found to process.'' []])
      else videosLoop E W chunkDuration 0 videoPaths [] [])"


text \<open>
  A disk on which the audio output file of the first video cannot be created; and a
  lecture of eleven minutes with a whisper-cli that fails on every chunk while the model
  answers.
\<close>

definition noSpaceEnv :: env where
  "noSpaceEnv = quietEnv
     \<lparr> osCreate := (\<lambda>name. if name = ''a_audio_output.txt''
                            then Some (EnvErr ''no space left on device'') else None) \<rparr>"

definition longLectureEnv :: env where
  "longLectureEnv = quietEnv
     \<lparr> generateContent := (\<lambda>prompt attempt. Inr [Some [Text ''slide 1'']]),
       parseFloat := (\<lambda>s. Inr 660),
       runCmd := (\<lambda>name args.
         if name = ''whisper-cli''
         then \<lparr>stdout = [], stderr = ''model not found'', combined = [],
                exitErr = Some (EnvErr ''exit status 1'')\<rparr>
         else \<lparr>stdout = [], stderr = [], combined = ''660.000000'', exitErr = None\<rparr>) \<rparr>"

definition lectureChunks :: "ChunkData list" where
  "lectureChunks =
     (case fst (chunkVideo longLectureEnv ''lecture.mp4'' 60 1 ''lecture'') of
        Ok chunks \<Rightarrow> chunks | _ \<Rightarrow> [])"


section \<open>Theorems\<close>

lemma extLoop_mem: "extLoop ext xs = (ext \<in> set xs)"
  by (induction xs) auto

lemma discoverLoop_entries:
  "discoverLoop windows unicodeLower
     (map (\<lambda>(path, name, isDir). WalkEntry path name isDir) entries) videoPaths
     = Inr (videoPaths
            @ map fst (filter (\<lambda>(path, name, isDir).
                                 \<not> isDir \<and> isVideoFile windows unicodeLower path) entries))"
  by (induction entries arbitrary: videoPaths) (auto simp: case_prod_unfold)

text \<open>
  C10. isVideoFile answers true exactly when the extension of the path (the suffix from
  the last dot of the last path element), lowercased, is one of the nine listed
  extensions; and the walk over a folder keeps, of the entries it is shown, exactly the
  paths of the non-directories that isVideoFile accepts, in order: the verdict depends on
  the text of the path alone.
\<close>

theorem isVideoFile_iff:
  "isVideoFile windows unicodeLower path =
     (ToLower unicodeLower (Ext windows path) \<in>
        {''.mp4'', ''.mov'', ''.avi'', ''.wmv'', ''.mkv'', ''.flv'', ''.webm'', ''.mpeg'', ''.mpg''})
   \<and> discoverLoop windows unicodeLower
         (map (\<lambda>(path, name, isDir). WalkEntry path name isDir) entries) []
       = Inr (map fst (filter (\<lambda>(path, name, isDir).
                                 \<not> isDir \<and> isVideoFile windows unicodeLower path) entries))"
  by (simp add: isVideoFile_def extLoop_mem videoExtensions_def Let_def discoverLoop_entries)

theorem isVideoFile_iff_witness:
  "isVideoFile False id ''/lectures/Day.1/Intro.MKV''
   \<and> \<not> isVideoFile False id ''/lectures/Day.1/notes.mkv.txt''
   \<and> \<not> isVideoFile False id ''/lectures/clip.mp4/readme''"
proof -
  have a: "ToLower id (Ext False ''/lectures/Day.1/Intro.MKV'') = ''.mkv''"
    by code_simp
  have b: "ToLower id (Ext False ''/lectures/Day.1/notes.mkv.txt'') = ''.txt''"
    by code_simp
  have c: "ToLower id (Ext False ''/lectures/clip.mp4/readme'') = []"
    by code_simp
  show ?thesis
    using isVideoFile_iff [of False id "''/lectures/Day.1/Intro.MKV''"]
      isVideoFile_iff [of False id "''/lectures/Day.1/notes.mkv.txt''"]
      isVideoFile_iff [of False id "''/lectures/clip.mp4/readme''"]
    by (simp add: a b c)
qed

subsection \<open>sentLlmPrompt\<close>

lemma attempts_append: "attempts (xs @ ys) = attempts xs + attempts ys"
  by (induction xs rule: attempts.induct) auto

lemma sleeps_append: "sleeps (xs @ ys) = sleeps xs @ sleeps ys"
  by (induction xs rule: sleeps.induct) auto

lemma partsLoop_text: "fst (partsLoop E fl ps) = concat (map textOfPart ps)"
  by (induction E fl ps rule: partsLoop.induct)
     (auto simp: textOfPart_def case_prod_unfold Let_def)

lemma partsLoop_quiet:
  "attempts (snd (partsLoop E fl ps)) = 0 \<and> sleeps (snd (partsLoop E fl ps)) = []"
  by (induction E fl ps rule: partsLoop.induct)
     (auto simp: attempts_append sleeps_append case_prod_unfold Let_def split: option.splits)

lemma candidatesLoop_text: "fst (candidatesLoop E fl resp) = responseText resp"
  by (induction resp)
     (auto simp: responseText_def partsLoop_text case_prod_unfold Let_def split: option.splits)

lemma candidatesLoop_quiet:
  "attempts (snd (candidatesLoop E fl resp)) = 0 \<and> sleeps (snd (candidatesLoop E fl resp)) = []"
  by (induction resp)
     (auto simp: attempts_append sleeps_append partsLoop_quiet case_prod_unfold Let_def
           split: option.splits)

text \<open>
  From any attempt on, the loop calls the model at most as often as attempts remain, and
  every sleep between two calls lasts \<open>retryDelay\<close>.
\<close>

lemma sentLlmPromptFrom_attempts:
  "sentLlmPromptFrom E prompt fl vi a = (r, evs) \<Longrightarrow>
   attempts evs \<le> maxRetries + 1 - a
   \<and> sleeps evs = replicate (attempts evs - 1) retryDelay"
proof (induction E prompt fl vi a arbitrary: r evs rule: sentLlmPromptFrom.induct)
  case (1 E prompt fl vi a)
  show ?case
  proof (cases "a \<le> maxRetries")
    case False
    then show ?thesis using "1.prems" by (subst (asm) sentLlmPromptFrom.simps) auto
  next
    case le: True
    show ?thesis
    proof (cases "generateContent E prompt a")
      case (Inr resp)
      with le "1.prems" show ?thesis
        using candidatesLoop_quiet[of E fl resp]
        by (subst (asm) sentLlmPromptFrom.simps)
           (auto simp add: attempts_append sleeps_append case_prod_unfold Let_def)
    next
      case (Inl err)
      show ?thesis
      proof (cases "a < maxRetries")
        case True
        obtain r' evs' where rec: "sentLlmPromptFrom E prompt fl vi (a + 1) = (r', evs')"
          by (cases "sentLlmPromptFrom E prompt fl vi (a + 1)") auto
        note ih = "1.IH"[OF le refl Inl refl True rec]
        have pos: "0 < attempts evs'"
          using rec True
          by (subst (asm) sentLlmPromptFrom.simps)
             (auto simp: Let_def attempts_append case_prod_unfold split: sum.splits if_splits)
        from le Inl True rec "1.prems" ih pos show ?thesis
          by (subst (asm) sentLlmPromptFrom.simps)
             (auto simp add: attempts_append sleeps_append Let_def replicate_Suc[symmetric]
                   simp del: replicate_Suc)
      next
        case False
        with le Inl "1.prems" show ?thesis
          by (subst (asm) sentLlmPromptFrom.simps)
             (auto simp add: attempts_append sleeps_append case_prod_unfold Let_def)
      qed
    qed
  qed
qed

text \<open>When every remaining attempt fails, the result is the empty string.\<close>

lemma sentLlmPromptFrom_exhausted:
  "a \<le> maxRetries \<Longrightarrow>
   (\<And>j. a \<le> j \<Longrightarrow> j \<le> maxRetries \<Longrightarrow> isl (generateContent E prompt j)) \<Longrightarrow>
   fst (sentLlmPromptFrom E prompt fl vi a) = []
   \<and> attempts (snd (sentLlmPromptFrom E prompt fl vi a)) = maxRetries + 1 - a"
proof (induction E prompt fl vi a rule: sentLlmPromptFrom.induct)
  case (1 E prompt fl vi a)
  from "1.prems" obtain err where err: "generateContent E prompt a = Inl err"
    by (cases "generateContent E prompt a") force+
  show ?case
  proof (cases "a < maxRetries")
    case True
    have "fst (sentLlmPromptFrom E prompt fl vi (a + 1)) = []
      \<and> attempts (snd (sentLlmPromptFrom E prompt fl vi (a + 1))) = maxRetries + 1 - (a + 1)"
      using "1.IH"[OF "1.prems"(1) refl err refl True] True "1.prems"(2) by simp
    with True err "1.prems"(1) show ?thesis
      by (subst sentLlmPromptFrom.simps, subst (2) sentLlmPromptFrom.simps)
         (simp add: Let_def case_prod_unfold attempts_append)
  next
    case False
    with err "1.prems"(1) show ?thesis
      by (subst sentLlmPromptFrom.simps, subst (2) sentLlmPromptFrom.simps)
         (simp add: Let_def case_prod_unfold attempts_append)
  qed
qed

text \<open>The first attempt that succeeds ends the loop with the text of its response.\<close>

lemma sentLlmPromptFrom_success:
  "a \<le> k \<Longrightarrow> k \<le> maxRetries \<Longrightarrow> generateContent E prompt k = Inr resp \<Longrightarrow>
   (\<And>j. a \<le> j \<Longrightarrow> j < k \<Longrightarrow> isl (generateContent E prompt j)) \<Longrightarrow>
   fst (sentLlmPromptFrom E prompt fl vi a) = responseText resp
   \<and> attempts (snd (sentLlmPromptFrom E prompt fl vi a)) = k + 1 - a"
proof (induction E prompt fl vi a rule: sentLlmPromptFrom.induct)
  case (1 E prompt fl vi a)
  have le: "a \<le> maxRetries" using "1.prems" by simp
  show ?case
  proof (cases "a = k")
    case True
    with le "1.prems"(3) show ?thesis
      using candidatesLoop_quiet[of E fl resp] candidatesLoop_text[of E fl resp]
      by (subst sentLlmPromptFrom.simps, subst (2) sentLlmPromptFrom.simps)
         (simp add: Let_def case_prod_unfold attempts_append)
  next
    case False
    then have lt: "a < k" using "1.prems"(1) by simp
    then obtain err where err: "generateContent E prompt a = Inl err"
      using "1.prems"(4)[of a] by (cases "generateContent E prompt a") auto
    have lt': "a < maxRetries" using lt "1.prems"(2) by simp
    have "fst (sentLlmPromptFrom E prompt fl vi (a + 1)) = responseText resp
      \<and> attempts (snd (sentLlmPromptFrom E prompt fl vi (a + 1))) = k + 1 - (a + 1)"
      using "1.IH"[OF le refl err refl lt'] lt "1.prems" by simp
    with lt lt' err le show ?thesis
      by (subst sentLlmPromptFrom.simps, subst (2) sentLlmPromptFrom.simps)
         (simp add: Let_def case_prod_unfold attempts_append)
  qed
qed

text \<open>
  C3. For every prompt and every behaviour of the model, sentLlmPrompt calls the model at
  most maxRetries + 1 times, sleeps exactly retryDelay between two consecutive calls,
  returns the empty string when all maxRetries + 1 attempts fail, and returns the
  concatenation of the text parts of the response at the first attempt that succeeds.
  Its result is a string: there is no error for the caller.
\<close>

theorem sentLlmPrompt_retry_bound:
  "attempts (snd (sentLlmPrompt E prompt fl vi)) \<le> maxRetries + 1
   \<and> sleeps (snd (sentLlmPrompt E prompt fl vi))
       = replicate (attempts (snd (sentLlmPrompt E prompt fl vi)) - 1) retryDelay
   \<and> ((\<forall>j\<le>maxRetries. isl (generateContent E prompt j)) \<longrightarrow>
        fst (sentLlmPrompt E prompt fl vi) = []
        \<and> attempts (snd (sentLlmPrompt E prompt fl vi)) = maxRetries + 1)
   \<and> (\<forall>k resp. k \<le> maxRetries \<and> generateContent E prompt k = Inr resp
          \<and> (\<forall>j<k. isl (generateContent E prompt j)) \<longrightarrow>
        fst (sentLlmPrompt E prompt fl vi) = responseText resp
        \<and> attempts (snd (sentLlmPrompt E prompt fl vi)) = k + 1)"
proof -
  have a: "attempts (snd (sentLlmPrompt E prompt fl vi)) \<le> maxRetries + 1
     \<and> sleeps (snd (sentLlmPrompt E prompt fl vi))
         = replicate (attempts (snd (sentLlmPrompt E prompt fl vi)) - 1) retryDelay"
    using sentLlmPromptFrom_attempts[of E prompt fl vi 0, OF prod.collapse[symmetric]]
    by (simp add: sentLlmPrompt_def)
  have b: "(\<forall>j\<le>maxRetries. isl (generateContent E prompt j)) \<longrightarrow>
        fst (sentLlmPrompt E prompt fl vi) = []
        \<and> attempts (snd (sentLlmPrompt E prompt fl vi)) = maxRetries + 1"
    using sentLlmPromptFrom_exhausted[of 0 E prompt fl vi]
    by (simp add: sentLlmPrompt_def)
  have c: "\<forall>k resp. k \<le> maxRetries \<and> generateContent E prompt k = Inr resp
          \<and> (\<forall>j<k. isl (generateContent E prompt j)) \<longrightarrow>
        fst (sentLlmPrompt E prompt fl vi) = responseText resp
        \<and> attempts (snd (sentLlmPrompt E prompt fl vi)) = k + 1"
  proof (intro allI impI)
    fix k resp
    assume h: "k \<le> maxRetries \<and> generateContent E prompt k = Inr resp
          \<and> (\<forall>j<k. isl (generateContent E prompt j))"
    then show "fst (sentLlmPrompt E prompt fl vi) = responseText resp
        \<and> attempts (snd (sentLlmPrompt E prompt fl vi)) = k + 1"
      using sentLlmPromptFrom_success[of 0 k E prompt resp fl vi]
      by (simp add: sentLlmPrompt_def)
  qed
  from a b c show ?thesis by blast
qed

theorem sentLlmPrompt_retry_bound_witness:
  "fst (sentLlmPrompt flakyEnv [Text ''q''] None 1) = ''abcde''
   \<and> attempts (snd (sentLlmPrompt flakyEnv [Text ''q''] None 1)) = 3
   \<and> sleeps (snd (sentLlmPrompt flakyEnv [Text ''q''] None 1)) = [15, 15]
   \<and> fst (sentLlmPrompt downEnv [Text ''q''] None 1) = []
   \<and> attempts (snd (sentLlmPrompt downEnv [Text ''q''] None 1)) = 4
   \<and> sleeps (snd (sentLlmPrompt downEnv [Text ''q''] None 1)) = [15, 15, 15]"
proof -
  have h1: "(2::nat) \<le> maxRetries
      \<and> generateContent flakyEnv [Text ''q''] 2 = Inr flakyResponse
      \<and> (\<forall>j<2. isl (generateContent flakyEnv [Text ''q''] j))"
    by (simp add: maxRetries_def flakyEnv_def)
  have h2: "\<forall>j\<le>maxRetries. isl (generateContent downEnv [Text ''q''] j)"
    by (simp add: downEnv_def)
  have t: "responseText flakyResponse = ''abcde''"
    by (simp add: responseText_def textOfPart_def flakyResponse_def)
  note f = sentLlmPrompt_retry_bound[of flakyEnv "[Text ''q'']" None 1]
  note d = sentLlmPrompt_retry_bound[of downEnv "[Text ''q'']" None 1]
  have f1: "fst (sentLlmPrompt flakyEnv [Text ''q''] None 1) = responseText flakyResponse
      \<and> attempts (snd (sentLlmPrompt flakyEnv [Text ''q''] None 1)) = 2 + 1"
    using f h1 by blast
  have f2: "sleeps (snd (sentLlmPrompt flakyEnv [Text ''q''] None 1))
      = replicate (attempts (snd (sentLlmPrompt flakyEnv [Text ''q''] None 1)) - 1) retryDelay"
    using f by blast
  have d1: "fst (sentLlmPrompt downEnv [Text ''q''] None 1) = []
      \<and> attempts (snd (sentLlmPrompt downEnv [Text ''q''] None 1)) = maxRetries + 1"
    using d h2 by blast
  have d2: "sleeps (snd (sentLlmPrompt downEnv [Text ''q''] None 1))
      = replicate (attempts (snd (sentLlmPrompt downEnv [Text ''q''] None 1)) - 1) retryDelay"
    using d by blast
  from f1 f2 d1 d2 t show ?thesis
    by (simp add: retryDelay_def maxRetries_def numeral_eq_Suc)
qed


subsection \<open>chunkVideo\<close>

text \<open>
  Where the count is right: a duration that is a whole number of seconds gives the
  ceiling of the quotient. When chunkVideo returns a list, its segments are numbered
  \<open>0\<close> to \<open>numChunks - 1\<close> in order, and segment \<open>i\<close> was cut by one ffmpeg call at
  offset \<open>i * chunkDuration\<close>.
\<close>

lemma numChunks_whole:
  assumes "0 < C" and "0 \<le> d"
  shows "numChunks (of_int d) C = \<lceil>(of_int d :: rat) / of_int C\<rceil>"
proof -
  have t1: "goTrunc (of_int d / of_int C) = d div C"
    using assms by (simp add: goTrunc_def floor_divide_of_int_eq divide_less_0_iff)
  have t2: "goTrunc (of_int d) = d"
    using assms by (simp add: goTrunc_def)
  have r: "goRem d C = d mod C"
    using assms by (cases "d = 0") (simp_all add: goRem_def)
  have c: "\<lceil>(of_int d :: rat) / of_int C\<rceil> = (if d mod C = 0 then d div C else d div C + 1)"
  proof -
    have "\<lceil>(of_int d :: rat) / of_int C\<rceil> = - \<lfloor>(of_int (- d) :: rat) / of_int C\<rfloor>"
      by (simp add: ceiling_def)
    also have "\<dots> = - ((- d) div C)"
      by (simp only: floor_divide_of_int_eq)
    also have "\<dots> = (if d mod C = 0 then d div C else d div C + 1)"
      using assms by (simp add: zdiv_zminus1_eq_if)
    finally show ?thesis .
  qed
  show ?thesis
    by (simp add: numChunks_def t1 t2 r c Let_def)
qed

lemma chunkLoop_ok:
  "chunkLoop E videoPath C vi baseName tempDir i todo chunks = (Ok cs, evs) \<Longrightarrow>
   cs = chunks @ map (\<lambda>k. segment tempDir vi baseName (i + int k)) [0..<todo]
   \<and> evs = map (\<lambda>k. Exec ''ffmpeg'' (segmentArgs videoPath C tempDir vi (i + int k))) [0..<todo]"
proof (induction todo arbitrary: i chunks evs)
  case 0
  then show ?case by simp
next
  case (Suc todo)
  from Suc.prems obtain evs' where
    r: "chunkLoop E videoPath C vi baseName tempDir (i + 1) todo
          (chunks @ [segment tempDir vi baseName i]) = (Ok cs, evs')"
    and e: "evs = Exec ''ffmpeg'' (segmentArgs videoPath C tempDir vi i) # evs'"
    by (auto simp: Let_def segment_def segmentArgs_def split: option.splits prod.splits)
  from Suc.IH[OF r] e show ?case
    by (simp add: map_upt_Suc add.assoc del: upt_Suc)
qed

lemma chunkVideo_segments:
  assumes "chunkVideo E videoPath C vi baseName = (Ok cs, evs)"
  shows "\<exists>D tempDir. parseFloat E (combined (runCmd E ''ffprobe'' (ffprobeArgs videoPath))) = Inr D
     \<and> mkdirTemp E ''video_chunks'' = Inr tempDir
     \<and> cs = map (\<lambda>k. segment tempDir vi baseName (int k)) [0..<nat (numChunks D C)]
     \<and> evs = [LookPath ''ffmpeg'', MkdirTemp ''video_chunks'',
              Exec ''ffprobe'' (ffprobeArgs videoPath)]
             @ map (\<lambda>k. Exec ''ffmpeg'' (segmentArgs videoPath C tempDir vi (int k)))
                 [0..<nat (numChunks D C)]"
proof -
  from assms obtain tempDir D evs' where
    t: "mkdirTemp E ''video_chunks'' = Inr tempDir"
    and d: "parseFloat E (combined (runCmd E ''ffprobe'' (ffprobeArgs videoPath))) = Inr D"
    and l: "chunkLoop E videoPath C vi baseName tempDir 0 (nat (numChunks D C)) [] = (Ok cs, evs')"
    and e: "evs = [LookPath ''ffmpeg'', MkdirTemp ''video_chunks'',
              Exec ''ffprobe'' (ffprobeArgs videoPath)] @ evs'"
    by (auto simp: chunkVideo_def Let_def split: option.splits sum.splits if_splits prod.splits)
  from chunkLoop_ok[OF l] t d e show ?thesis by simp
qed

text \<open>
  C1. The claim is that chunkVideo produces ceil(D/C) segments for a probed duration of
  D seconds and a positive chunk duration C. The code counts the full chunks and adds one
  only when the integer part of D leaves a remainder modulo C. On a video of 2.5 seconds
  cut into chunks of 2 seconds it returns the single segment 0, which starts at offset 0,
  while ceil(2.5 / 2) is 2: the last half second is in no segment.
\<close>

theorem chunkVideo_fractional_duration:
  "fst (chunkVideo halfEnv ''lecture.mp4'' 2 1 ''lecture'')
     = Ok [\<lparr>VideoPath = ''/tmp/video_chunks/chunk_0_video_1.mp4'',
              AudioPath = ''/tmp/video_chunks/chunk_0_video_1.wav'',
              ChunkNum = 0, Err = None, VideoIndex = 1, BaseName = ''lecture''\<rparr>]
   \<and> numChunks (5 / 2) 2 = 1
   \<and> \<lceil>(5 / 2 :: rat) / of_int 2\<rceil> = 2"
proof -
  have a: "fst (chunkVideo halfEnv ''lecture.mp4'' 2 1 ''lecture'')
     = Ok [\<lparr>VideoPath = ''/tmp/video_chunks/chunk_0_video_1.mp4'',
              AudioPath = ''/tmp/video_chunks/chunk_0_video_1.wav'',
              ChunkNum = 0, Err = None, VideoIndex = 1, BaseName = ''lecture''\<rparr>]"
    by code_simp
  have b: "numChunks (5 / 2) 2 = 1"
    by code_simp
  have c: "\<lceil>(5 / 2 :: rat) / of_int 2\<rceil> = 2"
    by code_simp
  from a b c show ?thesis by blast
qed

text \<open>
  C7. The claim is that every temporary artifact is removed exactly once on every exit
  path of the operation that creates it. chunkVideo creates its temporary directory and
  removes it when ffprobe fails or its output does not parse, but not when ffmpeg fails
  on a chunk: on a video of 60 seconds whose first chunk ffmpeg cannot write, the call
  fails with no list, having created the directory and removed nothing.
\<close>

theorem chunkVideo_extraction_failure_leaks_tempdir:
  "chunkVideo brokenEnv ''lecture.mp4'' 60 1 ''lecture''
     = (Failed (Errorf ''error creating video chunk %d for video %d: %w, output: %s''
                  [VInt 0, VInt 1, VErr (EnvErr ''exit status 1''), VStr ''Invalid data'']),
        [LookPath ''ffmpeg'', MkdirTemp ''video_chunks'',
         Exec ''ffprobe'' (ffprobeArgs ''lecture.mp4''),
         Exec ''ffmpeg'' (chunkArgs ''lecture.mp4'' 0 60
                            ''/tmp/video_chunks/chunk_0_video_1.mp4''
                            ''/tmp/video_chunks/chunk_0_video_1.wav'')])
   \<and> mkdirTemp brokenEnv ''video_chunks'' = Inr ''/tmp/video_chunks''"
proof -
  have a: "chunkVideo brokenEnv ''lecture.mp4'' 60 1 ''lecture''
     = (Failed (Errorf ''error creating video chunk %d for video %d: %w, output: %s''
                  [VInt 0, VInt 1, VErr (EnvErr ''exit status 1''), VStr ''Invalid data'']),
        [LookPath ''ffmpeg'', MkdirTemp ''video_chunks'',
         Exec ''ffprobe'' (ffprobeArgs ''lecture.mp4''),
         Exec ''ffmpeg'' (chunkArgs ''lecture.mp4'' 0 60
                            ''/tmp/video_chunks/chunk_0_video_1.mp4''
                            ''/tmp/video_chunks/chunk_0_video_1.wav'')])"
    by code_simp
  have b: "mkdirTemp brokenEnv ''video_chunks'' = Inr ''/tmp/video_chunks''"
    by (simp add: brokenEnv_def quietEnv_def)
  from a b show ?thesis by blast
qed


subsection \<open>transcribeFramesTesseractCLI\<close>

lemma mset_remove_nth:
  "j < length r \<Longrightarrow> mset (map f (take j r @ drop (Suc j) r)) + {# f (r ! j) #} = mset (map f r)"
proof -
  assume "j < length r"
  then have "r = take j r @ r ! j # drop (Suc j) r" by (rule id_take_nth_drop)
  then have "mset (map f r) = mset (map f (take j r @ r ! j # drop (Suc j) r))" by simp
  then show ?thesis by simp
qed

lemma poolRun_done: "poolRun E key slots step [] [] chan evs = (Ok chan, evs)"
  by (subst poolRun.simps) simp

lemma poolRun_launch:
  "pending \<noteq> [] \<Longrightarrow> length running < slots \<Longrightarrow>
   ocrSchedule E key step mod (1 + length running) = 0 \<Longrightarrow>
   poolRun E key slots step pending running chan evs
     = poolRun E key slots (step + 1) (tl pending) (running @ [hd pending]) chan evs"
  by (subst poolRun.simps) (simp add: Let_def)

lemma poolRun_finish_free:
  "pending \<noteq> [] \<Longrightarrow> length running < slots \<Longrightarrow>
   ocrSchedule E key step mod (1 + length running) = Suc j \<Longrightarrow>
   poolRun E key slots step pending running chan evs
     = poolRun E key slots (step + 1) pending (take j running @ drop (Suc j) running)
         (chan @ [workerResult E (running ! j)]) (evs @ workerEvents E (running ! j))"
  by (subst poolRun.simps) (simp add: Let_def workerResult_def workerEvents_def)

lemma poolRun_finish_full:
  "pending = [] \<or> \<not> length running < slots \<Longrightarrow> running \<noteq> [] \<Longrightarrow>
   ocrSchedule E key step mod length running = j \<Longrightarrow>
   poolRun E key slots step pending running chan evs
     = poolRun E key slots (step + 1) pending (take j running @ drop (Suc j) running)
         (chan @ [workerResult E (running ! j)]) (evs @ workerEvents E (running ! j))"
  by (subst poolRun.simps) (auto simp add: Let_def workerResult_def workerEvents_def)

text \<open>
  With at least one slot the pool always comes to its end: every frame's worker finishes
  once, in some order \<open>fin\<close>, and the channel and the events grow by the workers'
  results and events in that order.
\<close>

lemma poolRun_ok:
  "0 < slots \<Longrightarrow>
   \<exists>fin. mset fin = mset running + mset pending
     \<and> poolRun E key slots step pending running chan evs
         = (Ok (chan @ map (workerResult E) fin), evs @ concat (map (workerEvents E) fin))"
proof (induction "2 * length pending + length running"
         arbitrary: step pending running chan evs rule: less_induct)
  case less
  consider (idle) "pending = []" "running = []"
    | (free) "pending \<noteq> []" "length running < slots"
    | (full) "pending = [] \<or> \<not> length running < slots" "running \<noteq> []"
    using less.prems by (cases "pending = []"; cases "running = []") auto
  then show ?case
  proof cases
    case idle
    then show ?thesis by (simp add: poolRun_done)
  next
    case free
    show ?thesis
    proof (cases "ocrSchedule E key step mod (1 + length running)")
      case 0
      have "2 * length (tl pending) + length (running @ [hd pending])
              < 2 * length pending + length running"
        using free(1) by (cases pending) auto
      from less.hyps[OF this less.prems, of "step + 1" chan evs]
      obtain fin where
        m: "mset fin = mset (running @ [hd pending]) + mset (tl pending)"
        and r: "poolRun E key slots (step + 1) (tl pending) (running @ [hd pending]) chan evs
              = (Ok (chan @ map (workerResult E) fin), evs @ concat (map (workerEvents E) fin))"
        by blast
      have "mset fin = mset running + mset pending"
        using m free(1) by (cases pending) auto
      with r poolRun_launch[OF free 0] show ?thesis by auto
    next
      case (Suc j)
      have "ocrSchedule E key step mod (1 + length running) < 1 + length running"
        by (rule mod_less_divisor) simp
      then have jl: "j < length running" unfolding Suc by simp
      then have "2 * length pending + length (take j running @ drop (Suc j) running)
              < 2 * length pending + length running"
        by simp
      from less.hyps[OF this less.prems, of "step + 1" "chan @ [workerResult E (running ! j)]"
             "evs @ workerEvents E (running ! j)"]
      obtain fin where
        m: "mset fin = mset (take j running @ drop (Suc j) running) + mset pending"
        and r: "poolRun E key slots (step + 1) pending (take j running @ drop (Suc j) running)
              (chan @ [workerResult E (running ! j)]) (evs @ workerEvents E (running ! j))
              = (Ok ((chan @ [workerResult E (running ! j)]) @ map (workerResult E) fin),
                 (evs @ workerEvents E (running ! j)) @ concat (map (workerEvents E) fin))"
        by blast
      have "mset (running ! j # fin) = mset running + mset pending"
        using m mset_remove_nth[OF jl, of id] by (simp add: ac_simps)
      moreover have "poolRun E key slots step pending running chan evs
         = (Ok (chan @ map (workerResult E) (running ! j # fin)),
            evs @ concat (map (workerEvents E) (running ! j # fin)))"
        using r poolRun_finish_free[OF free Suc] by simp
      ultimately show ?thesis by blast
    qed
  next
    case full
    define j where "j = ocrSchedule E key step mod length running"
    have jl: "j < length running" using full(2) by (simp add: j_def)
    then have "2 * length pending + length (take j running @ drop (Suc j) running)
            < 2 * length pending + length running"
      by simp
    from less.hyps[OF this less.prems, of "step + 1" "chan @ [workerResult E (running ! j)]"
           "evs @ workerEvents E (running ! j)"]
    obtain fin where
      m: "mset fin = mset (take j running @ drop (Suc j) running) + mset pending"
      and r: "poolRun E key slots (step + 1) pending (take j running @ drop (Suc j) running)
            (chan @ [workerResult E (running ! j)]) (evs @ workerEvents E (running ! j))
            = (Ok ((chan @ [workerResult E (running ! j)]) @ map (workerResult E) fin),
               (evs @ workerEvents E (running ! j)) @ concat (map (workerEvents E) fin))"
      by blast
    have "mset (running ! j # fin) = mset running + mset pending"
      using m mset_remove_nth[OF jl, of id] by (simp add: ac_simps)
    moreover have "poolRun E key slots step pending running chan evs
       = (Ok (chan @ map (workerResult E) (running ! j # fin)),
          evs @ concat (map (workerEvents E) (running ! j # fin)))"
      using r poolRun_finish_full[OF full j_def[symmetric]] by simp
    ultimately show ?thesis by blast
  qed
qed

text \<open>The whole call: a finishing order of the frames, the text and the events.\<close>

lemma transcribeFramesTesseractCLI_run:
  assumes "0 < numCPU E"
  shows "\<exists>fin. mset fin = mset (enumerate 0 framePaths)
     \<and> transcribeFramesTesseractCLI E framePaths
         = (Ok (fst (collectLoop (map (workerResult E) fin))),
            concat (map (workerEvents E) fin) @ snd (collectLoop (map (workerResult E) fin)))"
proof -
  have "0 < numWorkers E" using assms by (simp add: numWorkers_def)
  from poolRun_ok[OF this, of "[]" "enumerate 0 framePaths" E framePaths 0 "[]" "[]"]
  obtain fin where
    m: "mset fin = mset (enumerate 0 framePaths)"
    and r: "poolRun E framePaths (numWorkers E) 0 (enumerate 0 framePaths) [] [] []
              = (Ok (map (workerResult E) fin), concat (map (workerEvents E) fin))"
    by auto
  have "transcribeFramesTesseractCLI E framePaths
         = (Ok (fst (collectLoop (map (workerResult E) fin))),
            concat (map (workerEvents E) fin) @ snd (collectLoop (map (workerResult E) fin)))"
    by (simp add: transcribeFramesTesseractCLI_def r case_prod_unfold Let_def)
  with m show ?thesis by blast
qed









subsection \<open>transcribeVideoLLM\<close>

lemma uploads_append: "uploads (xs @ ys) = uploads xs + uploads ys"
  by (induction xs rule: uploads.induct) auto

lemma deletions_append: "deletions (xs @ ys) = deletions xs @ deletions ys"
  by (induction xs rule: deletions.induct) auto

lemma no_cloudEvent:
  "\<forall>e\<in>set evs. \<not> cloudEvent e \<Longrightarrow> uploads evs = 0 \<and> deletions evs = [] \<and> attempts evs = 0"
proof (induction evs)
  case Nil
  then show ?case by simp
next
  case (Cons e evs)
  then show ?case by (cases e) auto
qed

lemma extractFrames_local: "\<forall>e\<in>set (snd (extractFrames E videoPath vi cn)). \<not> cloudEvent e"
  by (auto simp: extractFrames_def Let_def split: sum.splits option.splits)

lemma ocrWorker_local: "\<forall>e\<in>set (workerEvents E p). \<not> cloudEvent e"
  by (auto simp: workerEvents_def ocrWorker_def Let_def split: sum.splits option.splits)

lemma collectLoop_local: "\<forall>e\<in>set (snd (collectLoop chan)). \<not> cloudEvent e"
  by (induction chan rule: collectLoop.induct) (auto simp: case_prod_unfold Let_def)

lemma poolRun_events:
  "\<exists>fin. snd (poolRun E key slots step pending running chan evs)
            = evs @ concat (map (workerEvents E) fin)"
proof (induction "2 * length pending + length running"
         arbitrary: step pending running chan evs rule: less_induct)
  case less
  consider (idle) "pending = []" "running = []"
    | (stuck) "pending \<noteq> []" "running = []" "slots = 0"
    | (free) "pending \<noteq> []" "length running < slots"
    | (full) "pending = [] \<or> \<not> length running < slots" "running \<noteq> []"
    by (cases "pending = []"; cases "running = []") auto
  then show ?case
  proof cases
    case idle
    then have "snd (poolRun E key slots step pending running chan evs)
                 = evs @ concat (map (workerEvents E) [])"
      by (simp add: poolRun_done)
    then show ?thesis by blast
  next
    case stuck
    then have "poolRun E key slots step pending running chan evs = (Hang, evs)"
      by (subst poolRun.simps) simp
    then have "snd (poolRun E key slots step pending running chan evs)
                 = evs @ concat (map (workerEvents E) [])"
      by simp
    then show ?thesis by blast
  next
    case free
    show ?thesis
    proof (cases "ocrSchedule E key step mod (1 + length running)")
      case 0
      have "2 * length (tl pending) + length (running @ [hd pending])
              < 2 * length pending + length running"
        using free(1) by (cases pending) auto
      from less.hyps[OF this, of "step + 1" chan evs] poolRun_launch[OF free 0]
      show ?thesis by simp
    next
      case (Suc j)
      have "ocrSchedule E key step mod (1 + length running) < 1 + length running"
        by (rule mod_less_divisor) simp
      then have jl: "j < length running" unfolding Suc by simp
      then have "2 * length pending + length (take j running @ drop (Suc j) running)
              < 2 * length pending + length running"
        by simp
      from less.hyps[OF this, of "step + 1" "chan @ [workerResult E (running ! j)]"
             "evs @ workerEvents E (running ! j)"]
      obtain fin where
        "snd (poolRun E key slots (step + 1) pending (take j running @ drop (Suc j) running)
              (chan @ [workerResult E (running ! j)]) (evs @ workerEvents E (running ! j)))
           = (evs @ workerEvents E (running ! j)) @ concat (map (workerEvents E) fin)"
        by blast
      then have "snd (poolRun E key slots step pending running chan evs)
           = evs @ concat (map (workerEvents E) (running ! j # fin))"
        using poolRun_finish_free[OF free Suc] by simp
      then show ?thesis by blast
    qed
  next
    case full
    define j where "j = ocrSchedule E key step mod length running"
    have jl: "j < length running" using full(2) by (simp add: j_def)
    then have "2 * length pending + length (take j running @ drop (Suc j) running)
            < 2 * length pending + length running"
      by simp
    from less.hyps[OF this, of "step + 1" "chan @ [workerResult E (running ! j)]"
           "evs @ workerEvents E (running ! j)"]
    obtain fin where
      "snd (poolRun E key slots (step + 1) pending (take j running @ drop (Suc j) running)
            (chan @ [workerResult E (running ! j)]) (evs @ workerEvents E (running ! j)))
         = (evs @ workerEvents E (running ! j)) @ concat (map (workerEvents E) fin)"
      by blast
    then have "snd (poolRun E key slots step pending running chan evs)
         = evs @ concat (map (workerEvents E) (running ! j # fin))"
      using poolRun_finish_full[OF full j_def[symmetric]] by simp
    then show ?thesis by blast
  qed
qed

lemma transcribeFrames_local:
  "\<forall>e\<in>set (snd (transcribeFramesTesseractCLI E framePaths)). \<not> cloudEvent e"
proof -
  obtain fin where f: "snd (poolRun E framePaths (numWorkers E) 0 (enumerate 0 framePaths) [] [] [])
            = [] @ concat (map (workerEvents E) fin)"
    using poolRun_events by blast
  have "\<forall>e\<in>set (concat (map (workerEvents E) fin)). \<not> cloudEvent e"
    using ocrWorker_local by auto
  with f collectLoop_local show ?thesis
    by (cases "poolRun E framePaths (numWorkers E) 0 (enumerate 0 framePaths) [] [] []")
       (auto simp: transcribeFramesTesseractCLI_def case_prod_unfold Let_def split: result.splits)
qed

lemma partsLoop_no_transfer:
  "uploads (snd (partsLoop E fl ps)) = 0 \<and> deletions (snd (partsLoop E fl ps)) = []"
  by (induction E fl ps rule: partsLoop.induct)
     (auto simp: uploads_append deletions_append case_prod_unfold Let_def split: option.splits)

lemma candidatesLoop_no_transfer:
  "uploads (snd (candidatesLoop E fl resp)) = 0 \<and> deletions (snd (candidatesLoop E fl resp)) = []"
  by (induction resp)
     (auto simp: uploads_append deletions_append partsLoop_no_transfer case_prod_unfold Let_def
           split: option.splits)

lemma sentLlmPromptFrom_no_transfer:
  "uploads (snd (sentLlmPromptFrom E prompt fl vi a)) = 0
   \<and> deletions (snd (sentLlmPromptFrom E prompt fl vi a)) = []"
proof (induction E prompt fl vi a rule: sentLlmPromptFrom.induct)
  case (1 E prompt fl vi a)
  show ?case
  proof (cases "a \<le> maxRetries")
    case False
    then show ?thesis
      by (subst sentLlmPromptFrom.simps, subst (2) sentLlmPromptFrom.simps) simp
  next
    case le: True
    show ?thesis
    proof (cases "generateContent E prompt a")
      case (Inr resp)
      with le candidatesLoop_no_transfer[of E fl resp] show ?thesis
        by (subst sentLlmPromptFrom.simps, subst (2) sentLlmPromptFrom.simps)
           (simp add: uploads_append deletions_append case_prod_unfold Let_def)
    next
      case (Inl err)
      show ?thesis
      proof (cases "a < maxRetries")
        case True
        with le Inl "1.IH"[OF le refl Inl refl True] show ?thesis
          by (subst sentLlmPromptFrom.simps, subst (2) sentLlmPromptFrom.simps)
             (simp add: uploads_append deletions_append case_prod_unfold Let_def)
      next
        case False
        with le Inl show ?thesis
          by (subst sentLlmPromptFrom.simps, subst (2) sentLlmPromptFrom.simps)
             (simp add: uploads_append deletions_append case_prod_unfold Let_def)
      qed
    qed
  qed
qed

lemma framesCleanup_local: "\<forall>e\<in>set (framesCleanup E fps). \<not> cloudEvent e"
  by (simp add: framesCleanup_def)

lemma local_counts:
  "uploads (snd (extractFrames E p vi cn)) = 0 \<and> deletions (snd (extractFrames E p vi cn)) = []
   \<and> attempts (snd (extractFrames E p vi cn)) = 0
   \<and> uploads (snd (transcribeFramesTesseractCLI E fps)) = 0
   \<and> deletions (snd (transcribeFramesTesseractCLI E fps)) = []
   \<and> attempts (snd (transcribeFramesTesseractCLI E fps)) = 0
   \<and> uploads (framesCleanup E fps) = 0 \<and> deletions (framesCleanup E fps) = []
   \<and> attempts (framesCleanup E fps) = 0"
  using no_cloudEvent[OF extractFrames_local] no_cloudEvent[OF transcribeFrames_local]
    no_cloudEvent[OF framesCleanup_local]
  by simp


lemma transcribeVideoLLM_upload_failed:
  assumes "uploadFile E videoPath = Inl err"
  shows "fst (transcribeVideoLLM E videoPath vi cn) = fallbackOCR E videoPath vi cn
     \<and> uploads (snd (transcribeVideoLLM E videoPath vi cn)) = 1
     \<and> attempts (snd (transcribeVideoLLM E videoPath vi cn)) = 0"
proof -
  obtain r1 evs1 where x: "extractFrames E videoPath vi cn = (r1, evs1)"
    by (cases "extractFrames E videoPath vi cn") auto
  have c1: "uploads evs1 = 0 \<and> attempts evs1 = 0"
    using local_counts[of E videoPath vi cn] x by simp
  show ?thesis
  proof (cases r1)
    case (Ok framePaths)
    obtain r2 evs2 where t: "transcribeFramesTesseractCLI E framePaths = (r2, evs2)"
      by (cases "transcribeFramesTesseractCLI E framePaths") auto
    have c2: "uploads evs2 = 0 \<and> attempts evs2 = 0
        \<and> uploads (framesCleanup E framePaths) = 0 \<and> attempts (framesCleanup E framePaths) = 0"
      using local_counts[of E _ _ _ framePaths] t by simp
    from assms x Ok t c1 c2 show ?thesis
      by (cases r2)
         (simp_all add: transcribeVideoLLM_def fallbackOCR_def Let_def uploads_append attempts_append)
  next
    case (Failed e)
    with assms x c1 show ?thesis
      by (simp add: transcribeVideoLLM_def fallbackOCR_def Let_def uploads_append attempts_append)
  next
    case (Panic m)
    with assms x c1 show ?thesis
      by (simp add: transcribeVideoLLM_def fallbackOCR_def Let_def uploads_append attempts_append)
  next
    case Hang
    with assms x c1 show ?thesis
      by (simp add: transcribeVideoLLM_def fallbackOCR_def Let_def uploads_append attempts_append)
  qed
qed

lemma transcribeVideoLLM_empty_response:
  assumes "uploadFile E videoPath = Inr (name, uri)"
    and "fst (sentLlmPrompt E (transcriptionPrompt uri) None vi) = []"
  shows "fst (transcribeVideoLLM E videoPath vi cn) = fallbackOCR E videoPath vi cn
     \<and> uploads (snd (transcribeVideoLLM E videoPath vi cn)) = 1"
proof -
  obtain r1 evs1 where x: "extractFrames E videoPath vi cn = (r1, evs1)"
    by (cases "extractFrames E videoPath vi cn") auto
  obtain evs0 where s: "sentLlmPrompt E (transcriptionPrompt uri) None vi = ([], evs0)"
    using assms(2) by (cases "sentLlmPrompt E (transcriptionPrompt uri) None vi") auto
  have c0: "uploads evs0 = 0"
    using sentLlmPromptFrom_no_transfer[of E "transcriptionPrompt uri" None vi 0] s
    by (simp add: sentLlmPrompt_def)
  have c1: "uploads evs1 = 0"
    using local_counts[of E videoPath vi cn] x by simp
  show ?thesis
  proof (cases r1)
    case (Ok framePaths)
    obtain r2 evs2 where t: "transcribeFramesTesseractCLI E framePaths = (r2, evs2)"
      by (cases "transcribeFramesTesseractCLI E framePaths") auto
    have c2: "uploads evs2 = 0 \<and> uploads (framesCleanup E framePaths) = 0"
      using local_counts[of E _ _ _ framePaths] t by simp
    from assms(1) s x Ok t c0 c1 c2 show ?thesis
      by (cases r2)
         (simp_all add: transcribeVideoLLM_def fallbackOCR_def Let_def uploads_append)
  next
    case (Failed e)
    with assms(1) s x c0 c1 show ?thesis
      by (simp add: transcribeVideoLLM_def fallbackOCR_def Let_def uploads_append)
  next
    case (Panic m)
    with assms(1) s x c0 c1 show ?thesis
      by (simp add: transcribeVideoLLM_def fallbackOCR_def Let_def uploads_append)
  next
    case Hang
    with assms(1) s x c0 c1 show ?thesis
      by (simp add: transcribeVideoLLM_def fallbackOCR_def Let_def uploads_append)
  qed
qed

text \<open>
  C4. When the upload of the video artifact fails, transcribeVideoLLM returns what the OCR
  fallback (frame extraction, then the Tesseract ensemble) returns, having tried the
  upload once and never called the model; when the upload succeeds and the text of the
  prompt's response is empty, it returns what the same fallback returns. In both cases
  that result, empty or not, is the task's result.
\<close>

theorem transcribeVideoLLM_fallback:
  "(\<forall>err. uploadFile E videoPath = Inl err \<longrightarrow>
      fst (transcribeVideoLLM E videoPath vi cn) = fallbackOCR E videoPath vi cn
      \<and> uploads (snd (transcribeVideoLLM E videoPath vi cn)) = 1
      \<and> attempts (snd (transcribeVideoLLM E videoPath vi cn)) = 0)
   \<and> (\<forall>name uri. uploadFile E videoPath = Inr (name, uri)
          \<and> fst (sentLlmPrompt E (transcriptionPrompt uri) None vi) = [] \<longrightarrow>
      fst (transcribeVideoLLM E videoPath vi cn) = fallbackOCR E videoPath vi cn
      \<and> uploads (snd (transcribeVideoLLM E videoPath vi cn)) = 1)"
  using transcribeVideoLLM_upload_failed[of E videoPath _ vi cn]
    transcribeVideoLLM_empty_response[of E videoPath _ _ vi cn]
  by blast

theorem transcribeVideoLLM_fallback_witness:
  "fst (transcribeVideoLLM offlineEnv ''chunk.mp4'' 1 0) = fallbackOCR offlineEnv ''chunk.mp4'' 1 0
   \<and> uploads (snd (transcribeVideoLLM offlineEnv ''chunk.mp4'' 1 0)) = 1
   \<and> attempts (snd (transcribeVideoLLM offlineEnv ''chunk.mp4'' 1 0)) = 0
   \<and> fallbackOCR offlineEnv ''chunk.mp4'' 1 0 = Ok (''slide'' @ nl @ ''slide'' @ nl)
   \<and> fst (transcribeVideoLLM localEnv ''chunk.mp4'' 1 0) = fallbackOCR localEnv ''chunk.mp4'' 1 0
   \<and> uploads (snd (transcribeVideoLLM localEnv ''chunk.mp4'' 1 0)) = 1
   \<and> fallbackOCR localEnv ''chunk.mp4'' 1 0 = Ok (''slide'' @ nl @ ''slide'' @ nl)"
proof -
  have h1: "uploadFile offlineEnv ''chunk.mp4'' = Inl (EnvErr ''no route to host'')"
    by (simp add: offlineEnv_def)
  have h2: "uploadFile localEnv ''chunk.mp4'' = Inr (''files/x'', ''https://files/x'')
      \<and> fst (sentLlmPrompt localEnv (transcriptionPrompt ''https://files/x'') None 1) = []"
    by code_simp
  have a: "fallbackOCR offlineEnv ''chunk.mp4'' 1 0 = Ok (''slide'' @ nl @ ''slide'' @ nl)"
    by code_simp
  have b: "fallbackOCR localEnv ''chunk.mp4'' 1 0 = Ok (''slide'' @ nl @ ''slide'' @ nl)"
    by code_simp
  from transcribeVideoLLM_fallback[of offlineEnv "''chunk.mp4''" 1 0]
    transcribeVideoLLM_fallback[of localEnv "''chunk.mp4''" 1 0] h1 h2 a b
  show ?thesis by blast
qed

lemma partsLoop_deleteFile:
  "partsLoop (E\<lparr>deleteFile := d\<rparr>) fl ps = partsLoop E fl ps"
  by (induction E fl ps rule: partsLoop.induct) (auto simp: Let_def split: option.splits)

lemma candidatesLoop_deleteFile:
  "candidatesLoop (E\<lparr>deleteFile := d\<rparr>) fl resp = candidatesLoop E fl resp"
  by (induction resp) (auto simp: partsLoop_deleteFile cong: option.case_cong)

lemma sentLlmPromptFrom_deleteFile:
  "sentLlmPromptFrom (E\<lparr>deleteFile := d\<rparr>) prompt fl vi a = sentLlmPromptFrom E prompt fl vi a"
proof (induction E prompt fl vi a rule: sentLlmPromptFrom.induct)
  case (1 E prompt fl vi a)
  show ?case
  proof (cases "a \<le> maxRetries")
    case False
    then show ?thesis
      by (subst sentLlmPromptFrom.simps[of "E\<lparr>deleteFile := d\<rparr>" prompt fl vi a],
          subst sentLlmPromptFrom.simps[of E prompt fl vi a]) simp
  next
    case le: True
    show ?thesis
    proof (cases "generateContent E prompt a")
      case (Inr resp)
      with le show ?thesis
        by (subst sentLlmPromptFrom.simps[of "E\<lparr>deleteFile := d\<rparr>" prompt fl vi a],
            subst sentLlmPromptFrom.simps[of E prompt fl vi a])
           (simp add: candidatesLoop_deleteFile Let_def)
    next
      case (Inl err)
      show ?thesis
      proof (cases "a < maxRetries")
        case True
        with le Inl "1.IH"[OF le refl Inl refl True] show ?thesis
          by (subst sentLlmPromptFrom.simps[of "E\<lparr>deleteFile := d\<rparr>" prompt fl vi a],
              subst sentLlmPromptFrom.simps[of E prompt fl vi a])
             (simp add: Let_def)
      next
        case False
        with le Inl show ?thesis
          by (subst sentLlmPromptFrom.simps[of "E\<lparr>deleteFile := d\<rparr>" prompt fl vi a],
              subst sentLlmPromptFrom.simps[of E prompt fl vi a])
             (simp add: Let_def)
      qed
    qed
  qed
qed

lemma ocrWorker_deleteFile: "ocrWorker (E\<lparr>deleteFile := d\<rparr>) i fp = ocrWorker E i fp"
  by (simp add: ocrWorker_def cong: option.case_cong sum.case_cong)

lemma poolRun_deleteFile:
  "poolRun (E\<lparr>deleteFile := d\<rparr>) key slots step pending running chan evs
     = poolRun E key slots step pending running chan evs"
proof (induction "2 * length pending + length running"
         arbitrary: step pending running chan evs rule: less_induct)
  case less
  let ?E = "E\<lparr>deleteFile := d\<rparr>"
  have w: "\<And>p. workerResult ?E p = workerResult E p" "\<And>p. workerEvents ?E p = workerEvents E p"
    by (simp_all add: workerResult_def workerEvents_def ocrWorker_deleteFile)
  consider (idle) "pending = []" "running = []"
    | (stuck) "pending \<noteq> []" "running = []" "slots = 0"
    | (free) "pending \<noteq> []" "length running < slots"
    | (full) "pending = [] \<or> \<not> length running < slots" "running \<noteq> []"
    by (cases "pending = []"; cases "running = []") auto
  then show ?case
  proof cases
    case idle
    then show ?thesis by (simp add: poolRun_done)
  next
    case stuck
    have "poolRun ?E key slots step pending running chan evs = (Hang, evs)"
      using stuck by (subst poolRun.simps) simp
    moreover have "poolRun E key slots step pending running chan evs = (Hang, evs)"
      using stuck by (subst poolRun.simps) simp
    ultimately show ?thesis by simp
  next
    case free
    show ?thesis
    proof (cases "ocrSchedule E key step mod (1 + length running)")
      case 0
      then have z: "ocrSchedule ?E key step mod (1 + length running) = 0" by simp
      have "2 * length (tl pending) + length (running @ [hd pending])
              < 2 * length pending + length running"
        using free(1) by (cases pending) auto
      from less.hyps[OF this, of "step + 1" chan evs]
        poolRun_launch[OF free 0] poolRun_launch[OF free z]
      show ?thesis by simp
    next
      case (Suc j)
      then have Suc': "ocrSchedule ?E key step mod (1 + length running) = Suc j" by simp
      have "ocrSchedule E key step mod (1 + length running) < 1 + length running"
        by (rule mod_less_divisor) simp
      then have jl: "j < length running" unfolding Suc by simp
      then have "2 * length pending + length (take j running @ drop (Suc j) running)
              < 2 * length pending + length running"
        by simp
      from less.hyps[OF this, of "step + 1" "chan @ [workerResult E (running ! j)]"
             "evs @ workerEvents E (running ! j)"]
        poolRun_finish_free[OF free Suc] poolRun_finish_free[OF free Suc']
      show ?thesis by (simp add: w)
    qed
  next
    case full
    define j where "j = ocrSchedule E key step mod length running"
    then have j': "ocrSchedule ?E key step mod length running = j" by simp
    have jl: "j < length running" using full(2) by (simp add: j_def)
    then have "2 * length pending + length (take j running @ drop (Suc j) running)
            < 2 * length pending + length running"
      by simp
    from less.hyps[OF this, of "step + 1" "chan @ [workerResult E (running ! j)]"
           "evs @ workerEvents E (running ! j)"]
      poolRun_finish_full[OF full j_def[symmetric]] poolRun_finish_full[OF full j']
    show ?thesis by (simp add: w)
  qed
qed

lemma transcribeVideoLLM_deleteFile:
  "transcribeVideoLLM (E\<lparr>deleteFile := d\<rparr>) videoPath vi cn = transcribeVideoLLM E videoPath vi cn"
proof -
  have a: "extractFrames (E\<lparr>deleteFile := d\<rparr>) videoPath vi cn = extractFrames E videoPath vi cn"
    by (simp add: extractFrames_def cong: option.case_cong sum.case_cong)
  have b: "\<And>fps. transcribeFramesTesseractCLI (E\<lparr>deleteFile := d\<rparr>) fps
             = transcribeFramesTesseractCLI E fps"
    by (simp add: transcribeFramesTesseractCLI_def poolRun_deleteFile numWorkers_def)
  have c: "\<And>fps. framesCleanup (E\<lparr>deleteFile := d\<rparr>) fps = framesCleanup E fps"
    by (simp add: framesCleanup_def)
  have e: "\<And>p. sentLlmPrompt (E\<lparr>deleteFile := d\<rparr>) p None vi = sentLlmPrompt E p None vi"
    by (simp add: sentLlmPrompt_def sentLlmPromptFrom_deleteFile)
  show ?thesis
    by (simp add: transcribeVideoLLM_def a b c e
             cong: option.case_cong sum.case_cong prod.case_cong result.case_cong if_cong)
qed

lemma extractFrames_returns:
  "(\<exists>fps. fst (extractFrames E p vi cn) = Ok fps) \<or> (\<exists>e. fst (extractFrames E p vi cn) = Failed e)"
  by (auto simp: extractFrames_def Let_def split: sum.splits option.splits)

lemma transcribeVideoLLM_deletes_last:
  assumes up: "uploadFile E videoPath = Inr (name, uri)" and cpu: "0 < numCPU E"
  shows "\<exists>evs. snd (transcribeVideoLLM E videoPath vi cn) = evs @ [DeleteFile name]
           \<and> deletions evs = []"
proof -
  obtain r1 evs1 where x: "extractFrames E videoPath vi cn = (r1, evs1)"
    by (cases "extractFrames E videoPath vi cn") auto
  obtain tr evs0 where s: "sentLlmPrompt E (transcriptionPrompt uri) None vi = (tr, evs0)"
    by (cases "sentLlmPrompt E (transcriptionPrompt uri) None vi") auto
  have c0: "deletions evs0 = []"
    using sentLlmPromptFrom_no_transfer[of E "transcriptionPrompt uri" None vi 0] s
    by (simp add: sentLlmPrompt_def)
  have c1: "deletions evs1 = []"
    using local_counts[of E videoPath vi cn] x by simp
  show ?thesis
  proof (cases "tr = []")
    case False
    with up s c0 show ?thesis
      by (simp add: transcribeVideoLLM_def Let_def deletions_append)
  next
    case True
    from extractFrames_returns[of E videoPath vi cn] x
    consider (ok) fps where "r1 = Ok fps" | (failed) e where "r1 = Failed e"
      by auto
    then show ?thesis
    proof cases
      case ok
      from transcribeFramesTesseractCLI_run[OF cpu, of fps]
      obtain t evs2 where t: "transcribeFramesTesseractCLI E fps = (Ok t, evs2)"
        by blast
      have c2: "deletions evs2 = [] \<and> deletions (framesCleanup E fps) = []"
        using local_counts[of E _ _ _ fps] t by simp
      from up s True x ok t c0 c1 c2 show ?thesis
        by (simp add: transcribeVideoLLM_def Let_def deletions_append)
    next
      case failed
      with up s True x c0 c1 show ?thesis
        by (simp add: transcribeVideoLLM_def Let_def deletions_append)
    qed
  qed
qed

text \<open>
  C9, as claimed: an error from the deletion of the uploaded artifact is logged. The call
  of \<open>client.DeleteFile\<close> is the body of a deferred function that drops its result. With
  a model that answers and a deletion that fails, the deletion is the last event of the
  task and no line is logged or printed about it.
\<close>

theorem transcribeVideoLLM_deletion_error_not_logged:
  "deleteFile deleteFailsEnv ''files/x'' = Some (EnvErr ''permission denied'')
   \<and> transcribeVideoLLM deleteFailsEnv ''chunk.mp4'' 1 0
       = (Ok ''slide 1'',
          [UploadFile ''chunk.mp4'',
           Printf ''Waiting for 30 seconds after file upload to ensure file activation...'' [],
           Sleep 30,
           Printf ''Chunk %d for video %d: Video chunk uploaded as: %s''
             [VInt 0, VInt 1, VStr ''https://files/x''],
           Printf ''Sending combined prompt for video %d to LLM, attempt %d...''
             [VInt 1, VInt 1],
           GenerateContent (transcriptionPrompt ''https://files/x''),
           Printf ''LLM response received for video %d in %v.'' [VInt 1, VDur],
           Printf ''Combined prompt processed and written to file for video %d.'' [VInt 1],
           Printf ''Chunk %d for video %d: Video transcribed by LLM.'' [VInt 0, VInt 1],
           DeleteFile ''files/x''])"
proof -
  have a: "deleteFile deleteFailsEnv ''files/x'' = Some (EnvErr ''permission denied'')"
    by (simp add: deleteFailsEnv_def)
  have b: "transcribeVideoLLM deleteFailsEnv ''chunk.mp4'' 1 0
       = (Ok ''slide 1'',
          [UploadFile ''chunk.mp4'',
           Printf ''Waiting for 30 seconds after file upload to ensure file activation...'' [],
           Sleep 30,
           Printf ''Chunk %d for video %d: Video chunk uploaded as: %s''
             [VInt 0, VInt 1, VStr ''https://files/x''],
           Printf ''Sending combined prompt for video %d to LLM, attempt %d...''
             [VInt 1, VInt 1],
           GenerateContent (transcriptionPrompt ''https://files/x''),
           Printf ''LLM response received for video %d in %v.'' [VInt 1, VDur],
           Printf ''Combined prompt processed and written to file for video %d.'' [VInt 1],
           Printf ''Chunk %d for video %d: Video transcribed by LLM.'' [VInt 0, VInt 1],
           DeleteFile ''files/x''])"
    by code_simp
  from a b show ?thesis by blast
qed

text \<open>
  C9, amended. After a successful upload the uploaded artifact is deleted exactly once, as
  the last action of transcribeVideoLLM and so after the prompt has completed, whatever
  the prompt's outcome (a text, an empty response, the fallback and its failure). The
  answer to the deletion is dropped: the task's result and all its other actions are the
  same whether the deletion succeeds or fails.
\<close>

theorem transcribeVideoLLM_deletes_upload:
  assumes "uploadFile E videoPath = Inr (name, uri)" and "0 < numCPU E"
  shows "(\<exists>evs. snd (transcribeVideoLLM E videoPath vi cn) = evs @ [DeleteFile name]
            \<and> deletions evs = [])
     \<and> (\<forall>d. transcribeVideoLLM (E\<lparr>deleteFile := d\<rparr>) videoPath vi cn
              = transcribeVideoLLM E videoPath vi cn)"
  using transcribeVideoLLM_deletes_last[OF assms] transcribeVideoLLM_deleteFile
  by blast

theorem transcribeVideoLLM_deletes_upload_witness:
  "(\<exists>evs. snd (transcribeVideoLLM deleteFailsEnv ''chunk.mp4'' 1 0) = evs @ [DeleteFile ''files/x'']
            \<and> deletions evs = [])
   \<and> (\<forall>d. transcribeVideoLLM (deleteFailsEnv\<lparr>deleteFile := d\<rparr>) ''chunk.mp4'' 1 0
              = transcribeVideoLLM deleteFailsEnv ''chunk.mp4'' 1 0)"
proof -
  have h: "uploadFile deleteFailsEnv ''chunk.mp4'' = Inr (''files/x'', ''https://files/x'')"
       "0 < numCPU deleteFailsEnv"
    by (simp_all add: deleteFailsEnv_def quietEnv_def)
  from transcribeVideoLLM_deletes_upload[OF h] show ?thesis .
qed

subsection \<open>processChunk\<close>



lemma before_split:
  "before a b xs \<Longrightarrow> a \<noteq> b \<Longrightarrow> xs = pre @ b # post \<Longrightarrow> a \<in> set pre"
proof (induction xs arbitrary: pre)
  case Nil
  then show ?case by simp
next
  case (Cons x xs)
  show ?case
  proof (cases pre)
    case Nil
    with Cons.prems show ?thesis by (auto split: if_splits)
  next
    case (Cons p pre')
    with Cons.prems Cons.IH[of pre'] show ?thesis by (auto split: if_splits)
  qed
qed
















text \<open>
  C5. The claim is that every processed segment gets exactly one record in the audio
  stream and one in the video stream, also when a transcription task fails. A failing
  task first sends its error on \<open>errorChannel\<close> and then writes the record with the
  placeholder; the channel holds ten errors and is read only after the last video. On a
  lecture cut into eleven chunks with a whisper-cli that fails on every chunk, the first
  ten chunks fill the channel; at the eleventh the audio goroutine blocks on the send
  before it writes, processChunk never returns, and the audio stream has ten records for
  eleven segments (the video stream has its eleven). Every write succeeds in this
  environment, so each write call counted is a record in its stream.
\<close>

theorem processChunk_blocks_on_full_error_channel:
  "length lectureChunks = 11
   \<and> (case chunksLoop longLectureEnv whisperSetup ''lecture_audio_output.txt''
              ''lecture_video_output.txt'' errorChannelCap lectureChunks [] of
         (r, buf, evs) \<Rightarrow>
           (r, length buf, length (records ''lecture_audio_output.txt'' evs),
            length (records ''lecture_video_output.txt'' evs)))
       = (Hang, 10, 10, 11)"
proof -
  have a: "length lectureChunks = 11"
    by code_simp
  have b: "(case chunksLoop longLectureEnv whisperSetup ''lecture_audio_output.txt''
              ''lecture_video_output.txt'' errorChannelCap lectureChunks [] of
         (r, buf, evs) \<Rightarrow>
           (r, length buf, length (records ''lecture_audio_output.txt'' evs),
            length (records ''lecture_video_output.txt'' evs)))
       = (Hang, 10, 10, 11)"
    by code_simp
  from a b show ?thesis by blast
qed




subsection \<open>main\<close>

text \<open>
  C2. The claim is that a failure to create one of a job's output streams aborts only that
  job. Each of the three checks after \<open>os.Create\<close> calls \<open>log.Fatalf\<close>, which ends the
  process with status 1; the \<open>continue\<close> after it is dead code. With two videos and a
  disk on which the audio output file of the first cannot be created, the run ends there
  and the second video is never started. A failure of chunkVideo, which is logged with
  \<open>log.Printf\<close>, does go on to the second video.
\<close>

theorem main_exits_when_stream_creation_fails:
  "mainVideos noSpaceEnv whisperSetup 60 [''a.mp4'', ''b.mp4'']
     = (Exited 1,
        [Printf ''--- START PROCESSING VIDEO %d: %s ---'' [VInt 1, VStr ''a.mp4''],
         Printf ''Creating output files for video:'' [VStr ''a.mp4''],
         CreateFile ''a_output.txt'', CreateFile ''a_audio_output.txt'',
         LogPrint ''Error creating audio output file for video %s: %v''
           [VStr ''a.mp4'', VErr (EnvErr ''no space left on device'')],
         OsExit 1])
   \<and> fst (mainVideos brokenEnv whisperSetup 60 [''a.mp4'', ''b.mp4'']) = Completed
   \<and> Printf ''--- START PROCESSING VIDEO %d: %s ---'' [VInt 2, VStr ''b.mp4'']
       \<in> set (snd (mainVideos brokenEnv whisperSetup 60 [''a.mp4'', ''b.mp4'']))"
proof -
  have a: "mainVideos noSpaceEnv whisperSetup 60 [''a.mp4'', ''b.mp4'']
     = (Exited 1,
        [Printf ''--- START PROCESSING VIDEO %d: %s ---'' [VInt 1, VStr ''a.mp4''],
         Printf ''Creating output files for video:'' [VStr ''a.mp4''],
         CreateFile ''a_output.txt'', CreateFile ''a_audio_output.txt'',
         LogPrint ''Error creating audio output file for video %s: %v''
           [VStr ''a.mp4'', VErr (EnvErr ''no space left on device'')],
         OsExit 1])"
    by code_simp
  have b: "fst (mainVideos brokenEnv whisperSetup 60 [''a.mp4'', ''b.mp4'']) = Completed"
    by code_simp
  have c: "Printf ''--- START PROCESSING VIDEO %d: %s ---'' [VInt 2, VStr ''b.mp4'']
       \<in> set (snd (mainVideos brokenEnv whisperSetup 60 [''a.mp4'', ''b.mp4'']))"
    by code_simp
  from a b c show ?thesis by blast
qed

end
